theory Spec2Isabelle
  imports Main "HOL-Library.Word"
begin

unbundle bit_operations_syntax

section \<open>JavaScript values and strings\<close>

text \<open>
  A JavaScript string is a sequence of code units. The model covers the code units
  below 256 (ASCII and Latin-1), one \<^typ>\<open>char\<close> each, so that \<open>length\<close> is the
  \<^verbatim>\<open>.length\<close> of the source. The white space of \<^verbatim>\<open>String.prototype.trim\<close> and of
  the regular expression class \<^verbatim>\<open>\s\<close> is, in that range: TAB, LF, VT, FF, CR, SPACE
  and NBSP.
\<close>

definition isWhiteSpace :: "char \<Rightarrow> bool" where
  "isWhiteSpace c =
     (let n = (of_char c :: nat)
      in n = 9 \<or> n = 10 \<or> n = 11 \<or> n = 12 \<or> n = 13 \<or> n = 32 \<or> n = 160)"

definition trim :: "string \<Rightarrow> string" where
  "trim s = rev (dropWhile isWhiteSpace (rev (dropWhile isWhiteSpace s)))"

text \<open>
  \<^verbatim>\<open>toLowerCase\<close> on the code units below 256: A-Z and the Latin-1 capitals
  (0xC0-0xDE without the multiplication sign 0xD7) move up by 32, the rest stays.
\<close>

definition toLowerCaseUnit :: "char \<Rightarrow> char" where
  "toLowerCaseUnit c =
     (let n = (of_char c :: nat)
      in if (65 \<le> n \<and> n \<le> 90) \<or> (192 \<le> n \<and> n \<le> 222 \<and> n \<noteq> 215)
         then char_of (n + 32) else c)"

definition toLowerCase :: "string \<Rightarrow> string" where
  "toLowerCase s = map toLowerCaseUnit s"

text \<open>\<^verbatim>\<open>String.prototype.includes\<close>: the argument occurs as a contiguous part.\<close>

fun startsWith :: "string \<Rightarrow> string \<Rightarrow> bool" where
  "startsWith s [] = True"
| "startsWith [] (p # ps) = False"
| "startsWith (c # cs) (p # ps) = (c = p \<and> startsWith cs ps)"

fun includesStr :: "string \<Rightarrow> string \<Rightarrow> bool" where
  "includesStr [] sub = startsWith [] sub"
| "includesStr (c # cs) sub = (startsWith (c # cs) sub \<or> includesStr cs sub)"

text \<open>
  The values a request can put into a field. The service observes them through
  truthiness (\<^verbatim>\<open>!x\<close>) and \<^verbatim>\<open>typeof\<close> only, until a value is known to be a string.
\<close>

datatype jsval =
    JUndefined
  | JNull
  | JBoolean bool
  | JNumber int
  | JString string
  | JArray "jsval list"
  | JObject "(string \<times> jsval) list"

fun truthy :: "jsval \<Rightarrow> bool" where
  "truthy JUndefined = False"
| "truthy JNull = False"
| "truthy (JBoolean b) = b"
| "truthy (JNumber n) = (n \<noteq> 0)"
| "truthy (JString s) = (s \<noteq> [])"
| "truthy (JArray xs) = True"
| "truthy (JObject kvs) = True"

fun typeof :: "jsval \<Rightarrow> string" where
  "typeof JUndefined = ''undefined''"
| "typeof JNull = ''object''"
| "typeof (JBoolean b) = ''boolean''"
| "typeof (JNumber n) = ''number''"
| "typeof (JString s) = ''string''"
| "typeof (JArray xs) = ''object''"
| "typeof (JObject kvs) = ''object''"

text \<open>
  The string behind a value whose \<^verbatim>\<open>typeof\<close> is \<^verbatim>\<open>'string'\<close>. The operations
  read it only after their checks have established that; the other equation is never
  reached from them (lemma \<open>validateUserInput_strings\<close> below).
\<close>

fun the_string :: "jsval \<Rightarrow> string" where
  "the_string (JString s) = s"
| "the_string v = []"

section \<open>Regular expressions\<close>

text \<open>
  The fragment of \<^verbatim>\<open>RegExp\<close> the service uses: character classes, sequence,
  \<^verbatim>\<open>+\<close> and \<^verbatim>\<open>{n}\<close>, between the anchors \<^verbatim>\<open>^\<close> and \<^verbatim>\<open>$\<close>. With both anchors
  and no \<^verbatim>\<open>m\<close> flag \<^verbatim>\<open>test\<close> succeeds iff the whole string matches, which
  \<open>test\<close> decides by derivatives.
\<close>

datatype rx =
    Fail
  | Empty
  | Cls "char \<Rightarrow> bool"
  | Alt rx rx
  | Seq rx rx
  | Star rx

fun nullable :: "rx \<Rightarrow> bool" where
  "nullable Fail = False"
| "nullable Empty = True"
| "nullable (Cls p) = False"
| "nullable (Alt r s) = (nullable r \<or> nullable s)"
| "nullable (Seq r s) = (nullable r \<and> nullable s)"
| "nullable (Star r) = True"

fun deriv :: "char \<Rightarrow> rx \<Rightarrow> rx" where
  "deriv c Fail = Fail"
| "deriv c Empty = Fail"
| "deriv c (Cls p) = (if p c then Empty else Fail)"
| "deriv c (Alt r s) = Alt (deriv c r) (deriv c s)"
| "deriv c (Seq r s) =
     (if nullable r then Alt (Seq (deriv c r) s) (deriv c s) else Seq (deriv c r) s)"
| "deriv c (Star r) = Seq (deriv c r) (Star r)"

fun test :: "rx \<Rightarrow> string \<Rightarrow> bool" where
  "test r [] = nullable r"
| "test r (c # cs) = test (deriv c r) cs"

definition Plus :: "rx \<Rightarrow> rx" where
  "Plus r = Seq r (Star r)"

fun Rep :: "nat \<Rightarrow> rx \<Rightarrow> rx" where
  "Rep 0 r = Empty"
| "Rep (Suc n) r = Seq r (Rep n r)"

definition Lit :: "char \<Rightarrow> rx" where
  "Lit a = Cls (\<lambda>c. c = a)"

text \<open>The strings an expression matches, against which \<open>test\<close> is verified below.\<close>

definition conc :: "string set \<Rightarrow> string set \<Rightarrow> string set" where
  "conc A B = {u @ v | u v. u \<in> A \<and> v \<in> B}"

inductive_set star :: "string set \<Rightarrow> string set" for A :: "string set" where
  star_nil: "[] \<in> star A"
| star_app: "u \<in> A \<Longrightarrow> v \<in> star A \<Longrightarrow> u @ v \<in> star A"

fun lang :: "rx \<Rightarrow> string set" where
  "lang Fail = {}"
| "lang Empty = {[]}"
| "lang (Cls p) = {[c] | c. p c}"
| "lang (Alt r s) = lang r \<union> lang s"
| "lang (Seq r s) = conc (lang r) (lang s)"
| "lang (Star r) = star (lang r)"

section \<open>The user service: errors and validation\<close>

text \<open>
  The values the service throws. \<open>ValidationError\<close> carries its message and the
  optional \<^verbatim>\<open>field\<close>; \<open>DuplicateEmailError\<close> and \<open>UserNotFoundError\<close> carry the
  constructor's argument, from which \<open>message\<close> builds the text. \<open>Error\<close> stands
  for every other \<^verbatim>\<open>Error\<close> instance (message, and the \<^verbatim>\<open>code\<close> property when the
  object has one, as the errors of the database driver do); \<open>SyntaxError\<close> is the
  body parser's (message, and whether the object has a \<^verbatim>\<open>body\<close> property);
  \<open>NonError\<close> is a thrown value that is no \<^verbatim>\<open>Error\<close>, with what \<^verbatim>\<open>String\<close> makes of it.
\<close>

datatype error =
    ValidationError string "string option"
  | DuplicateEmailError string
  | UserNotFoundError string
  | Error string "string option"
  | SyntaxError string bool
  | NonError string

fun message :: "error \<Rightarrow> string" where
  "message (ValidationError m f) = m"
| "message (DuplicateEmailError email) = ''User with email '' @ [CHR 0x27] @ email @ [CHR 0x27] @ '' already exists''"
| "message (UserNotFoundError ident) = ''User with ID '' @ [CHR 0x27] @ ident @ [CHR 0x27] @ '' not found''"
| "message (Error m c) = m"
| "message (SyntaxError m b) = m"
| "message (NonError s) = s"

fun code :: "error \<Rightarrow> string option" where
  "code (Error m c) = c"
| "code e = None"

fun instanceofError :: "error \<Rightarrow> bool" where
  "instanceofError (NonError s) = False"
| "instanceofError e = True"

text \<open>
  The \<^verbatim>\<open>message\<close> property as a handler reads it without asking for the class: a
  thrown value that is no \<^verbatim>\<open>Error\<close> has none (\<^verbatim>\<open>undefined\<close>).
\<close>

fun message_property :: "error \<Rightarrow> string option" where
  "message_property (NonError s) = None"
| "message_property e = Some (message e)"

record CreateUserInput =
  name :: jsval
  email :: jsval
  password :: jsval

text \<open>
  A row as the driver hands it over is an object with one property for each column
  of the result, a string or a \<^verbatim>\<open>Date\<close> (the instant, as a number). The
  interface \<^verbatim>\<open>User\<close> names such an object; which properties it has is decided by the
  column list of the statement that produced it.
\<close>

datatype colval = Text string | Timestamp nat

type_synonym User = "(string \<times> colval) list"

text \<open>\<^verbatim>\<open>/^[^\s@]+@[^\s@]+\.[^\s@]+$/\<close>\<close>

definition emailRegex :: rx where
  "emailRegex =
     (let part = Plus (Cls (\<lambda>c. \<not> isWhiteSpace c \<and> c \<noteq> CHR ''@''))
      in Seq part (Seq (Lit CHR ''@'') (Seq part (Seq (Lit CHR ''.'') part))))"

definition isValidEmail :: "string \<Rightarrow> bool" where
  "isValidEmail e = test emailRegex e"

text \<open>
  \<^verbatim>\<open>/^[0-9a-f]{8}-[0-9a-f]{4}-[0-9a-f]{4}-[0-9a-f]{4}-[0-9a-f]{12}$/i\<close>; under the
  \<^verbatim>\<open>i\<close> flag the class also takes A-F.
\<close>

definition hexClass :: "char \<Rightarrow> bool" where
  "hexClass c =
     (let n = (of_char c :: nat)
      in (48 \<le> n \<and> n \<le> 57) \<or> (97 \<le> n \<and> n \<le> 102) \<or> (65 \<le> n \<and> n \<le> 70))"

definition uuidRegex :: rx where
  "uuidRegex =
     Seq (Rep 8 (Cls hexClass)) (Seq (Lit CHR ''-'')
    (Seq (Rep 4 (Cls hexClass)) (Seq (Lit CHR ''-'')
    (Seq (Rep 4 (Cls hexClass)) (Seq (Lit CHR ''-'')
    (Seq (Rep 4 (Cls hexClass)) (Seq (Lit CHR ''-'')
         (Rep 12 (Cls hexClass)))))))))"

definition isValidUUID :: "string \<Rightarrow> bool" where
  "isValidUUID ident = test uuidRegex ident"

text \<open>\<open>None\<close>: the function returns; \<open>Some e\<close>: it throws \<open>e\<close>.\<close>

definition validateUserInput :: "CreateUserInput \<Rightarrow> error option" where
  "validateUserInput input =
     (if \<not> truthy (name input) \<or> typeof (name input) \<noteq> ''string''
      then Some (ValidationError ''Name is required and must be a string'' (Some ''name''))
      else if length (trim (the_string (name input))) = 0
      then Some (ValidationError ''Name cannot be empty'' (Some ''name''))
      else if length (the_string (name input)) > 255
      then Some (ValidationError ''Name must be 255 characters or less'' (Some ''name''))
      else if \<not> truthy (email input) \<or> typeof (email input) \<noteq> ''string''
      then Some (ValidationError ''Email is required and must be a string'' (Some ''email''))
      else if \<not> isValidEmail (the_string (email input))
      then Some (ValidationError ''Email must be a valid email address'' (Some ''email''))
      else if length (the_string (email input)) > 255
      then Some (ValidationError ''Email must be 255 characters or less'' (Some ''email''))
      else if \<not> truthy (password input) \<or> typeof (password input) \<noteq> ''string''
      then Some (ValidationError ''Password is required and must be a string'' (Some ''password''))
      else if length (the_string (password input)) < 8
      then Some (ValidationError ''Password must be at least 8 characters long'' (Some ''password''))
      else if length (the_string (password input)) > 255
      then Some (ValidationError ''Password must be 255 characters or less'' (Some ''password''))
      else None)"

section \<open>The digest\<close>

text \<open>
  \<^verbatim>\<open>crypto.createHash('sha256').update(password).digest('hex')\<close>: the string is
  encoded as UTF-8, hashed with SHA-256 (FIPS 180-4) and written as lower-case
  hexadecimal digits. The library is not part of the sources; the function is written
  out from the standard, and the code generated from it gives the standard's digests
  (\<^verbatim>\<open>ba7816bf...f20015ad\<close> for \<^verbatim>\<open>abc\<close>).
\<close>

type_synonym byte = "8 word"
type_synonym w32 = "32 word"

definition utf8_unit :: "char \<Rightarrow> byte list" where
  "utf8_unit c =
     (let n = (of_char c :: nat)
      in if n < 128 then [word_of_nat n]
         else [0xC0 OR word_of_nat (n div 64), 0x80 OR word_of_nat (n mod 64)])"

definition utf8 :: "string \<Rightarrow> byte list" where
  "utf8 s = concat (map utf8_unit s)"

definition rotr :: "nat \<Rightarrow> w32 \<Rightarrow> w32" where
  "rotr n x = drop_bit n x OR push_bit (32 - n) x"

definition Ch :: "w32 \<Rightarrow> w32 \<Rightarrow> w32 \<Rightarrow> w32" where
  "Ch x y z = (x AND y) XOR (NOT x AND z)"

definition Maj :: "w32 \<Rightarrow> w32 \<Rightarrow> w32 \<Rightarrow> w32" where
  "Maj x y z = (x AND y) XOR (x AND z) XOR (y AND z)"

definition bsig0 :: "w32 \<Rightarrow> w32" where
  "bsig0 x = rotr 2 x XOR rotr 13 x XOR rotr 22 x"

definition bsig1 :: "w32 \<Rightarrow> w32" where
  "bsig1 x = rotr 6 x XOR rotr 11 x XOR rotr 25 x"

definition ssig0 :: "w32 \<Rightarrow> w32" where
  "ssig0 x = rotr 7 x XOR rotr 18 x XOR drop_bit 3 x"

definition ssig1 :: "w32 \<Rightarrow> w32" where
  "ssig1 x = rotr 17 x XOR rotr 19 x XOR drop_bit 10 x"

text \<open>
  The constants of FIPS 180-4 by their definition: the first 32 bits of the fractional
  parts of the cube roots (round constants) and of the square roots (initial hash
  value) of the first primes. \<open>iroot e x b r\<close> adds to \<open>r\<close>, from bit \<open>b - 1\<close>
  down, every bit that keeps the \<open>e\<close>-th power at most \<open>x\<close>.
\<close>

fun iroot :: "nat \<Rightarrow> nat \<Rightarrow> nat \<Rightarrow> nat \<Rightarrow> nat" where
  "iroot e x 0 r = r"
| "iroot e x (Suc b) r = iroot e x b (if (r + 2 ^ b) ^ e \<le> x then r + 2 ^ b else r)"

definition frac_root :: "nat \<Rightarrow> nat \<Rightarrow> w32" where
  "frac_root e p = word_of_nat (iroot e (p * 2 ^ (32 * e)) 35 0)"

definition primes64 :: "nat list" where
  "primes64 =
     [2, 3, 5, 7, 11, 13, 17, 19, 23, 29, 31, 37, 41, 43, 47, 53,
      59, 61, 67, 71, 73, 79, 83, 89, 97, 101, 103, 107, 109, 113, 127, 131,
      137, 139, 149, 151, 157, 163, 167, 173, 179, 181, 191, 193, 197, 199, 211, 223,
      227, 229, 233, 239, 241, 251, 257, 263, 269, 271, 277, 281, 283, 293, 307, 311]"

definition K256 :: "w32 list" where
  "K256 = map (frac_root 3) primes64"

definition H256 :: "w32 list" where
  "H256 = map (frac_root 2) (take 8 primes64)"

text \<open>The sixteen big-endian words of a 64-byte block.\<close>

fun be_words :: "byte list \<Rightarrow> w32 list" where
  "be_words (a # b # c # d # bs) =
     (push_bit 24 (ucast a) OR push_bit 16 (ucast b) OR push_bit 8 (ucast c) OR ucast d)
       # be_words bs"
| "be_words bs = []"

text \<open>The message schedule, newest word first: the list starts W(t-1), W(t-2), ...\<close>

fun schedule :: "nat \<Rightarrow> w32 list \<Rightarrow> w32 list" where
  "schedule 0 ws = ws"
| "schedule (Suc n) ws =
     schedule n ((ssig1 (ws ! 1) + ws ! 6 + ssig0 (ws ! 14) + ws ! 15) # ws)"

fun rounds :: "w32 list \<Rightarrow> w32 list \<Rightarrow> w32 list \<Rightarrow> w32 list" where
  "rounds (k # ks) (w # ws) [a, b, c, d, e, f, g, h] =
     (let t1 = h + bsig1 e + Ch e f g + k + w;
          t2 = bsig0 a + Maj a b c
      in rounds ks ws [t1 + t2, a, b, c, d + t1, e, f, g])"
| "rounds ks ws st = st"

definition compress :: "w32 list \<Rightarrow> byte list \<Rightarrow> w32 list" where
  "compress hs block =
     (let ws = rev (schedule 48 (rev (be_words block)))
      in map2 (+) hs (rounds K256 ws hs))"

definition w32_bytes :: "w32 \<Rightarrow> byte list" where
  "w32_bytes w = [ucast (drop_bit 24 w), ucast (drop_bit 16 w), ucast (drop_bit 8 w), ucast w]"

definition w64_bytes :: "64 word \<Rightarrow> byte list" where
  "w64_bytes w = w32_bytes (ucast (drop_bit 32 w)) @ w32_bytes (ucast w)"

definition pad :: "byte list \<Rightarrow> byte list" where
  "pad msg =
     msg @ [0x80] @ replicate ((119 - length msg mod 64) mod 64) 0
       @ w64_bytes (word_of_nat (8 * length msg))"

function blocks :: "w32 list \<Rightarrow> byte list \<Rightarrow> w32 list" where
  "blocks hs bs =
     (if length bs < 64 then hs else blocks (compress hs (take 64 bs)) (drop 64 bs))"
  by pat_completeness auto
termination
  by (relation "measure (\<lambda>(hs, bs). length bs)") auto

declare blocks.simps [simp del]

definition sha256 :: "byte list \<Rightarrow> byte list" where
  "sha256 msg = concat (map w32_bytes (blocks H256 (pad msg)))"

definition hexNibble :: "nat \<Rightarrow> char" where
  "hexNibble n = ''0123456789abcdef'' ! (n mod 16)"

definition hex :: "byte list \<Rightarrow> string" where
  "hex bs = concat (map (\<lambda>b. [hexNibble (unat (drop_bit 4 b)), hexNibble (unat (b AND 0x0f))]) bs)"

definition hashPassword :: "string \<Rightarrow> string" where
  "hashPassword pw = hex (sha256 (utf8 pw))"

text \<open>
  A word and a byte given by a natural number. The digests below are computed on
  words in this form, where every operation is arithmetic on the number.
\<close>

definition w32_of :: "nat \<Rightarrow> w32" where
  "w32_of n = word_of_nat n"

definition byte_of :: "nat \<Rightarrow> byte" where
  "byte_of n = word_of_nat n"

section \<open>The store\<close>

text \<open>
  Modelled from the spec: the relational store behind \<^verbatim>\<open>query\<close> (the driver's pool
  and the \<^verbatim>\<open>users\<close> table, whose schema is not part of the sources). A row has the
  columns \<^verbatim>\<open>id, name, email, password, created_at, updated_at\<close>; \<^verbatim>\<open>email\<close> is
  unique; the store assigns \<^verbatim>\<open>id\<close> and both timestamps at insertion, the timestamps
  equal. The identifier is the next value of a counter written as a canonical
  lower-case UUID, so that none is handed out twice; identifiers are compared as UUID
  values, that is without regard to the case of their digits. A store that cannot
  be reached rejects every statement with the error of its \<open>outage\<close> (message and
  \<^verbatim>\<open>code\<close>). \<open>statements\<close> counts the statements the pool has been given.
\<close>

record db_row =
  row_id :: string
  row_name :: string
  row_email :: string
  row_password :: string
  row_created_at :: nat
  row_updated_at :: nat

record database =
  users :: "db_row list"
  uuid_counter :: nat
  clock :: nat
  outage :: "(string \<times> string option) option"
  statements :: nat

text \<open>
  The three statements the service issues, with their parameters; the column list is
  the one after \<^verbatim>\<open>RETURNING\<close> and after \<^verbatim>\<open>SELECT\<close>.
\<close>

datatype column = Col_id | Col_name | Col_email | Col_password | Col_created_at | Col_updated_at

datatype statement =
    INSERT_INTO_users string string string "column list"
  | DELETE_FROM_users string
  | SELECT_FROM_users "column list" string

record QueryResult =
  rows :: "User list"
  rowCount :: nat

fun hexDigits :: "nat \<Rightarrow> nat \<Rightarrow> string" where
  "hexDigits 0 v = []"
| "hexDigits (Suc k) v = hexDigits k (v div 16) @ [hexNibble (v mod 16)]"

definition uuid_of_counter :: "nat \<Rightarrow> string" where
  "uuid_of_counter n =
     (let h = hexDigits 32 n
      in take 8 h @ ''-'' @ take 4 (drop 8 h) @ ''-'' @ take 4 (drop 12 h) @ ''-''
           @ take 4 (drop 16 h) @ ''-'' @ drop 20 h)"

definition same_uuid :: "string \<Rightarrow> string \<Rightarrow> bool" where
  "same_uuid a b = (toLowerCase a = toLowerCase b)"

fun column_name :: "column \<Rightarrow> string" where
  "column_name Col_id = ''id''"
| "column_name Col_name = ''name''"
| "column_name Col_email = ''email''"
| "column_name Col_password = ''password''"
| "column_name Col_created_at = ''created_at''"
| "column_name Col_updated_at = ''updated_at''"

fun cell :: "db_row \<Rightarrow> column \<Rightarrow> colval" where
  "cell r Col_id = Text (row_id r)"
| "cell r Col_name = Text (row_name r)"
| "cell r Col_email = Text (row_email r)"
| "cell r Col_password = Text (row_password r)"
| "cell r Col_created_at = Timestamp (row_created_at r)"
| "cell r Col_updated_at = Timestamp (row_updated_at r)"

definition returning :: "column list \<Rightarrow> db_row \<Rightarrow> User" where
  "returning cols r = map (\<lambda>c. (column_name c, cell r c)) cols"

text \<open>
  Modelled from the spec: what the store does with each statement of the gateway
  contract (\<^verbatim>\<open>insert\<close>, \<^verbatim>\<open>deleteById\<close>, \<^verbatim>\<open>selectById\<close>).
\<close>

fun execute :: "database \<Rightarrow> statement \<Rightarrow> (error + QueryResult) \<times> database" where
  "execute db (INSERT_INTO_users n e p cols) =
     (if e \<in> set (map row_email (users db))
      then (Inl (Error ''duplicate key value violates unique constraint'' (Some ''23505'')), db)
      else
        (let r = \<lparr>row_id = uuid_of_counter (uuid_counter db), row_name = n, row_email = e,
                  row_password = p, row_created_at = clock db, row_updated_at = clock db\<rparr>
         in (Inr \<lparr>rows = [returning cols r], rowCount = 1\<rparr>,
             db\<lparr>users := users db @ [r], uuid_counter := uuid_counter db + 1\<rparr>)))"
| "execute db (DELETE_FROM_users i) =
     (Inr \<lparr>rows = [], rowCount = length (filter (\<lambda>r. same_uuid (row_id r) i) (users db))\<rparr>,
      db\<lparr>users := filter (\<lambda>r. \<not> same_uuid (row_id r) i) (users db)\<rparr>)"
| "execute db (SELECT_FROM_users cols i) =
     (let found = filter (\<lambda>r. same_uuid (row_id r) i) (users db)
      in (Inr \<lparr>rows = map (returning cols) found, rowCount = length found\<rparr>, db))"

text \<open>
  Modelled from the spec: \<^verbatim>\<open>pool.query\<close> of the driver. The statement counts as
  issued and the clock moves on; a store that cannot be reached rejects it.
\<close>

definition pool_query :: "database \<Rightarrow> statement \<Rightarrow> (error + QueryResult) \<times> database" where
  "pool_query db stmt =
     (let db1 = db\<lparr>statements := statements db + 1, clock := clock db + 1\<rparr>
      in case outage db of
           Some (m, c) \<Rightarrow> (Inl (Error m c), db1)
         | None \<Rightarrow> execute db1 stmt)"

text \<open>
  \<^verbatim>\<open>query\<close> of the connection module: the statement goes to the pool; a result is
  returned and an error is logged and thrown again.
\<close>

definition query :: "database \<Rightarrow> statement \<Rightarrow> (error + QueryResult) \<times> database" where
  "query db stmt =
     (case pool_query db stmt of
        (Inr result, db') \<Rightarrow> (Inr result, db')
      | (Inl e, db') \<Rightarrow> (Inl e, db'))"

section \<open>The user service: operations\<close>

text \<open>
  Each operation takes the store and returns what it returns or throws (\<open>Inl\<close> the
  thrown value) together with the store afterwards. The body of \<^verbatim>\<open>try\<close> and the
  \<^verbatim>\<open>catch\<close> clause are separate definitions.
\<close>

definition createUser_try :: "database \<Rightarrow> CreateUserInput \<Rightarrow> (error + User) \<times> database" where
  "createUser_try db input =
     (case validateUserInput input of
        Some e \<Rightarrow> (Inl e, db)
      | None \<Rightarrow>
          (let hashedPassword = hashPassword (the_string (password input));
               (result, db') = query db (INSERT_INTO_users
                   (trim (the_string (name input)))
                   (trim (toLowerCase (the_string (email input))))
                   hashedPassword
                   [Col_id, Col_name, Col_email, Col_created_at, Col_updated_at])
           in case result of
                Inl e \<Rightarrow> (Inl e, db')
              | Inr res \<Rightarrow>
                  (case rows res of
                     [] \<Rightarrow> (Inl (Error ''Failed to create user: no rows returned from database'' None), db')
                   | user # rest \<Rightarrow> (Inr user, db'))))"

text \<open>
  The \<^verbatim>\<open>catch\<close> clause of \<^verbatim>\<open>createUser\<close>: an error with code 23505 becomes a
  \<open>DuplicateEmailError\<close> of \<^verbatim>\<open>input.email\<close>; everything else is thrown again.
\<close>

definition createUser_catch :: "CreateUserInput \<Rightarrow> error \<Rightarrow> error" where
  "createUser_catch input e =
     (if instanceofError e \<and> code e = Some ''23505''
      then DuplicateEmailError (the_string (email input))
      else e)"

definition createUser :: "database \<Rightarrow> CreateUserInput \<Rightarrow> (error + User) \<times> database" where
  "createUser db input =
     (case createUser_try db input of
        (Inl e, db') \<Rightarrow> (Inl (createUser_catch input e), db')
      | (Inr user, db') \<Rightarrow> (Inr user, db'))"

text \<open>
  \<^verbatim>\<open>deleteUserById\<close> and \<^verbatim>\<open>getUserById\<close>: their \<^verbatim>\<open>catch\<close> clauses throw every
  error again as it is, so the model is the body of \<^verbatim>\<open>try\<close>.
\<close>

definition deleteUserById :: "database \<Rightarrow> jsval \<Rightarrow> (error + unit) \<times> database" where
  "deleteUserById db ident =
     (if \<not> truthy ident \<or> typeof ident \<noteq> ''string''
      then (Inl (ValidationError ''User ID is required and must be a string'' (Some ''id'')), db)
      else if \<not> isValidUUID (the_string ident)
      then (Inl (ValidationError ''User ID must be a valid UUID'' (Some ''id'')), db)
      else
        (let (result, db') = query db (DELETE_FROM_users (the_string ident))
         in case result of
              Inl e \<Rightarrow> (Inl e, db')
            | Inr res \<Rightarrow>
                if rowCount res = 0
                then (Inl (UserNotFoundError (the_string ident)), db')
                else (Inr (), db')))"

definition getUserById :: "database \<Rightarrow> jsval \<Rightarrow> (error + User) \<times> database" where
  "getUserById db ident =
     (if \<not> truthy ident \<or> typeof ident \<noteq> ''string''
      then (Inl (ValidationError ''User ID is required and must be a string'' (Some ''id'')), db)
      else if \<not> isValidUUID (the_string ident)
      then (Inl (ValidationError ''User ID must be a valid UUID'' (Some ''id'')), db)
      else
        (let (result, db') = query db (SELECT_FROM_users
                   [Col_id, Col_name, Col_email, Col_created_at, Col_updated_at]
                   (the_string ident))
         in case result of
              Inl e \<Rightarrow> (Inl e, db')
            | Inr res \<Rightarrow>
                (case rows res of
                   [] \<Rightarrow> (Inl (UserNotFoundError (the_string ident)), db')
                 | user # rest \<Rightarrow> (Inr user, db'))))"

section \<open>The routes and the error handlers\<close>

text \<open>
  A response is the status code and the argument of \<^verbatim>\<open>res.json\<close> (\<open>None\<close> for
  \<^verbatim>\<open>res.send()\<close> without a body). \<open>JIsoDate n\<close> is the string \<^verbatim>\<open>toISOString\<close> gives
  for the instant \<open>n\<close>. \<open>sent\<close> lists the properties of the JSON object the client
  receives: serialisation leaves out the properties whose value is \<^verbatim>\<open>undefined\<close>.
\<close>

datatype json = JIsoDate nat | JValue jsval | JData "(string \<times> json) list"

record response =
  status_code :: nat
  body :: "(string \<times> json) list option"

definition sent :: "response \<Rightarrow> (string \<times> json) list" where
  "sent r =
     (case body r of
        None \<Rightarrow> []
      | Some kvs \<Rightarrow> filter (\<lambda>kv. snd kv \<noteq> JValue JUndefined) kvs)"

definition property :: "response \<Rightarrow> string \<Rightarrow> json option" where
  "property r k = map_of (sent r) k"

definition str :: "string \<Rightarrow> json" where
  "str s = JValue (JString s)"

definition optional :: "string option \<Rightarrow> json" where
  "optional v = (case v of None \<Rightarrow> JValue JUndefined | Some s \<Rightarrow> str s)"

text \<open>
  \<^verbatim>\<open>error instanceof Error ? error.message : String(error)\<close>: \<open>message\<close> of a
  \<open>NonError\<close> is what \<^verbatim>\<open>String\<close> makes of the value.
\<close>

definition details_of :: "error \<Rightarrow> string" where
  "details_of e = message e"

fun handleUserRouteError :: "error \<Rightarrow> string \<Rightarrow> response" where
  "handleUserRouteError (ValidationError m f) operation =
     \<lparr>status_code = 400,
      body = Some [(''status'', str ''error''), (''error'', str ''validation_error''),
                   (''message'', str m), (''field'', optional f)]\<rparr>"
| "handleUserRouteError (DuplicateEmailError e) operation =
     \<lparr>status_code = 409,
      body = Some [(''status'', str ''error''), (''error'', str ''duplicate_email''),
                   (''message'', str (message (DuplicateEmailError e))), (''field'', str ''email'')]\<rparr>"
| "handleUserRouteError (UserNotFoundError i) operation =
     \<lparr>status_code = 404,
      body = Some [(''status'', str ''error''), (''error'', str ''user_not_found''),
                   (''message'', str (message (UserNotFoundError i)))]\<rparr>"
| "handleUserRouteError e operation =
     (if instanceofError e \<and> includesStr (message e) ''connect''
      then \<lparr>status_code = 503,
            body = Some [(''status'', str ''error''), (''error'', str ''database_unavailable''),
                         (''message'', str ''Unable to connect to database''),
                         (''details'', str (message e))]\<rparr>
      else \<lparr>status_code = 500,
            body = Some [(''status'', str ''error''), (''error'', str ''internal_server_error''),
                         (''message'', str (''An unexpected error occurred while '' @ operation)),
                         (''details'', str (details_of e))]\<rparr>)"

text \<open>The property of a request body, \<^verbatim>\<open>undefined\<close> where there is none.\<close>

fun body_prop :: "jsval \<Rightarrow> string \<Rightarrow> jsval" where
  "body_prop (JObject kvs) k = (case map_of kvs k of None \<Rightarrow> JUndefined | Some v \<Rightarrow> v)"
| "body_prop v k = JUndefined"

text \<open>
  Reading a property of the user object for the response: a missing property is
  \<^verbatim>\<open>undefined\<close>. \<^verbatim>\<open>toISOString\<close> is called on the two timestamps and throws a
  \<^verbatim>\<open>TypeError\<close> on anything but a \<^verbatim>\<open>Date\<close>; the object literal evaluates
  \<^verbatim>\<open>created_at\<close> first.
\<close>

definition read_property :: "User \<Rightarrow> string \<Rightarrow> json" where
  "read_property user k =
     (case map_of user k of
        None \<Rightarrow> JValue JUndefined
      | Some (Text s) \<Rightarrow> str s
      | Some (Timestamp t) \<Rightarrow> JIsoDate t)"

definition toISOString :: "User \<Rightarrow> string \<Rightarrow> error + json" where
  "toISOString user k =
     (case map_of user k of
        None \<Rightarrow> Inl (Error ''Cannot read properties of undefined (reading 'toISOString')'' None)
      | Some (Text s) \<Rightarrow> Inl (Error (''user.'' @ k @ ''.toISOString is not a function'') None)
      | Some (Timestamp t) \<Rightarrow> Inr (JIsoDate t))"

definition user_data :: "User \<Rightarrow> error + json" where
  "user_data user =
     (case toISOString user ''created_at'' of
        Inl e \<Rightarrow> Inl e
      | Inr created \<Rightarrow>
          (case toISOString user ''updated_at'' of
             Inl e \<Rightarrow> Inl e
           | Inr updated \<Rightarrow>
               Inr (JData [(''id'', read_property user ''id''),
                           (''name'', read_property user ''name''),
                           (''email'', read_property user ''email''),
                           (''created_at'', created), (''updated_at'', updated)])))"

text \<open>
  \<^verbatim>\<open>POST /users\<close>. Destructuring \<^verbatim>\<open>req.body\<close> comes first and throws a
  \<^verbatim>\<open>TypeError\<close> when the body is \<^verbatim>\<open>undefined\<close> or \<^verbatim>\<open>null\<close>; the handler's own
  \<^verbatim>\<open>catch\<close> passes it to \<open>handleUserRouteError\<close>.
\<close>

definition post_users :: "database \<Rightarrow> jsval \<Rightarrow> response \<times> database" where
  "post_users db req_body =
     (if req_body = JUndefined
      then (handleUserRouteError
              (Error ''Cannot destructure property 'name' of 'req.body' as it is undefined.'' None)
              ''creating user'', db)
      else if req_body = JNull
      then (handleUserRouteError
              (Error ''Cannot destructure property 'name' of 'req.body' as it is null.'' None)
              ''creating user'', db)
      else if \<not> truthy req_body \<or> typeof req_body \<noteq> ''object''
      then (\<lparr>status_code = 400,
             body = Some [(''status'', str ''error''), (''error'', str ''invalid_request''),
                          (''message'', str ''Request body must be a JSON object''),
                          (''field'', str ''body'')]\<rparr>, db)
      else
        (case createUser db \<lparr>name = body_prop req_body ''name'', email = body_prop req_body ''email'',
                              password = body_prop req_body ''password''\<rparr> of
           (Inr user, db') \<Rightarrow>
             (case user_data user of
                Inr data \<Rightarrow>
                  (\<lparr>status_code = 201,
                    body = Some [(''status'', str ''success''), (''data'', data)]\<rparr>, db')
              | Inl e \<Rightarrow> (handleUserRouteError e ''creating user'', db'))
         | (Inl e, db') \<Rightarrow> (handleUserRouteError e ''creating user'', db')))"

definition missing_id :: response where
  "missing_id =
     \<lparr>status_code = 400,
      body = Some [(''status'', str ''error''), (''error'', str ''validation_error''),
                   (''message'', str ''User ID is required''), (''field'', str ''id'')]\<rparr>"

definition get_users_id :: "database \<Rightarrow> string \<Rightarrow> response \<times> database" where
  "get_users_id db ident =
     (if ident = [] then (missing_id, db)
      else
        (case getUserById db (JString ident) of
           (Inr user, db') \<Rightarrow>
             (case user_data user of
                Inr data \<Rightarrow>
                  (\<lparr>status_code = 200,
                    body = Some [(''status'', str ''success''), (''data'', data)]\<rparr>, db')
              | Inl e \<Rightarrow> (handleUserRouteError e ''retrieving user'', db'))
         | (Inl e, db') \<Rightarrow> (handleUserRouteError e ''retrieving user'', db')))"

definition delete_users_id :: "database \<Rightarrow> string \<Rightarrow> response \<times> database" where
  "delete_users_id db ident =
     (if ident = [] then (missing_id, db)
      else
        (case deleteUserById db (JString ident) of
           (Inr u, db') \<Rightarrow> (\<lparr>status_code = 204, body = None\<rparr>, db')
         | (Inl e, db') \<Rightarrow> (handleUserRouteError e ''deleting user'', db')))"

text \<open>The \<^verbatim>\<open>catch\<close> branch of the health check route.\<close>

definition health_check_failed :: "error \<Rightarrow> response" where
  "health_check_failed e =
     \<lparr>status_code = 500,
      body = Some [(''status'', str ''error''), (''error'', str ''health_check_failed''),
                   (''message'', str ''Health check endpoint encountered an error''),
                   (''details'', str (details_of e))]\<rparr>"

text \<open>
  The two error-handling middlewares of the application. The first answers the body
  parser's \<^verbatim>\<open>SyntaxError\<close> and passes every other error on (\<open>None\<close>); the second
  answers whatever reaches it, with \<^verbatim>\<open>details\<close> only in development.
\<close>

definition jsonParsingErrorHandler :: "error \<Rightarrow> response option" where
  "jsonParsingErrorHandler err =
     (case err of
        SyntaxError m has_body \<Rightarrow>
          if has_body
          then Some \<lparr>status_code = 400,
                     body = Some [(''error'', str ''invalid_json''),
                                  (''message'', str ''Request body contains invalid JSON''),
                                  (''details'', str m)]\<rparr>
          else None
      | _ \<Rightarrow> None)"

definition globalErrorHandler :: "bool \<Rightarrow> error \<Rightarrow> response" where
  "globalErrorHandler development err =
     \<lparr>status_code = 500,
      body = Some [(''error'', str ''internal_server_error''),
                   (''message'', str ''An unexpected error occurred''),
                   (''details'',
                      if development then optional (message_property err)
                      else JValue JUndefined)]\<rparr>"

definition app_error :: "bool \<Rightarrow> error \<Rightarrow> response" where
  "app_error development err =
     (case jsonParsingErrorHandler err of
        Some r \<Rightarrow> r
      | None \<Rightarrow> globalErrorHandler development err)"

section \<open>The identifier check as the specification words it\<close>

text \<open>
  The canonical UUID shape: the parts between the hyphens are five groups of 8, 4, 4,
  4 and 12 characters, all of them hexadecimal digits of either case.
  \<open>validateIdentifier\<close> is the check that the specification describes for both
  \<^verbatim>\<open>fetch\<close> and \<^verbatim>\<open>delete\<close>: the identifier is required (absent, not a string, or
  the empty string, which the operations take for absent), and must have that shape.
  \<open>validationFailure\<close> reads off an outcome the \<open>ValidationError\<close> it threw, if any.
\<close>

fun groups :: "string \<Rightarrow> string list" where
  "groups [] = [[]]"
| "groups (c # cs) =
     (if c = CHR ''-'' then [] # groups cs
      else (case groups cs of [] \<Rightarrow> [[c]] | g # gs \<Rightarrow> (c # g) # gs))"

definition isHexDigit :: "char \<Rightarrow> bool" where
  "isHexDigit c = (c \<in> set ''0123456789abcdefABCDEF'')"

definition canonicalUUIDShape :: "string \<Rightarrow> bool" where
  "canonicalUUIDShape s =
     (map length (groups s) = [8, 4, 4, 4, 12] \<and> list_all isHexDigit (concat (groups s)))"

definition validateIdentifier :: "jsval \<Rightarrow> error option" where
  "validateIdentifier v =
     (if \<not> truthy v \<or> typeof v \<noteq> ''string''
      then Some (ValidationError ''User ID is required and must be a string'' (Some ''id''))
      else if \<not> canonicalUUIDShape (the_string v)
      then Some (ValidationError ''User ID must be a valid UUID'' (Some ''id''))
      else None)"

definition validationFailure :: "error + 'a \<Rightarrow> error option" where
  "validationFailure r =
     (case r of Inl (ValidationError m f) \<Rightarrow> Some (ValidationError m f) | _ \<Rightarrow> None)"

section \<open>Observations on responses, and the values used as examples\<close>

text \<open>
  The envelope of an error response: a \<^verbatim>\<open>status\<close> property equal to
  \<^verbatim>\<open>"error"\<close> and an \<^verbatim>\<open>error\<close> property, in what the client receives.
\<close>

definition has_envelope :: "response \<Rightarrow> bool" where
  "has_envelope r = (property r ''status'' = Some (str ''error'') \<and> property r ''error'' \<noteq> None)"

definition empty_store :: database where
  "empty_store = \<lparr>users = [], uuid_counter = 0, clock = 0, outage = None, statements = 0\<rparr>"

definition john :: CreateUserInput where
  "john = \<lparr>name = JString ''John Doe'', email = JString ''JOHN@Example.com'',
           password = JString ''password123''\<rparr>"

text \<open>The same input with white space around the name.\<close>

definition padded_john :: CreateUserInput where
  "padded_john = \<lparr>name = JString ''  John Doe '', email = JString ''JOHN@Example.com'',
                  password = JString ''password123''\<rparr>"

definition johns_store :: database where
  "johns_store =
     \<lparr>users = [\<lparr>row_id = ''123e4567-e89b-12d3-a456-426614174000'', row_name = ''John Doe'',
                row_email = ''john@example.com'', row_password = hashPassword ''password123'',
                row_created_at = 1, row_updated_at = 1\<rparr>],
      uuid_counter = 1, clock = 1, outage = None, statements = 1\<rparr>"

definition jane :: CreateUserInput where
  "jane = \<lparr>name = JString ''Jane Doe'', email = JString ''john@EXAMPLE.com'',
           password = JString ''differentpass123''\<rparr>"

section \<open>The store: basic facts\<close>

lemma query_unfold:
  "query db stmt =
     (let db1 = db\<lparr>statements := statements db + 1, clock := clock db + 1\<rparr>
      in case outage db of
           Some (m, c) \<Rightarrow> (Inl (Error m c), db1)
         | None \<Rightarrow> execute db1 stmt)"
  by (simp add: query_def pool_query_def Let_def split: option.splits prod.splits sum.splits)

section \<open>The matcher decides the language\<close>

lemma nullable_lang: "nullable r \<longleftrightarrow> [] \<in> lang r"
  by (induction r) (auto simp: conc_def intro: star.star_nil)

lemma conc_Cons:
  "c # w \<in> conc A B \<longleftrightarrow> ([] \<in> A \<and> c # w \<in> B) \<or> (\<exists>u v. w = u @ v \<and> c # u \<in> A \<and> v \<in> B)"
proof
  assume "c # w \<in> conc A B"
  then obtain u v where uv: "c # w = u @ v" "u \<in> A" "v \<in> B"
    by (auto simp: conc_def)
  show "([] \<in> A \<and> c # w \<in> B) \<or> (\<exists>u v. w = u @ v \<and> c # u \<in> A \<and> v \<in> B)"
  proof (cases u)
    case Nil
    with uv show ?thesis by simp
  next
    case (Cons a u')
    with uv show ?thesis by auto
  qed
next
  assume "([] \<in> A \<and> c # w \<in> B) \<or> (\<exists>u v. w = u @ v \<and> c # u \<in> A \<and> v \<in> B)"
  then show "c # w \<in> conc A B"
  proof
    assume "[] \<in> A \<and> c # w \<in> B"
    then have "[] @ (c # w) \<in> conc A B"
      unfolding conc_def by blast
    then show ?thesis by simp
  next
    assume "\<exists>u v. w = u @ v \<and> c # u \<in> A \<and> v \<in> B"
    then obtain u v where "w = u @ v" "c # u \<in> A" "v \<in> B" by blast
    then have "(c # u) @ v \<in> conc A B"
      unfolding conc_def by blast
    with \<open>w = u @ v\<close> show ?thesis by simp
  qed
qed

lemma star_Cons_dest:
  assumes "x \<in> star A" and "x = c # w"
  shows "\<exists>u v. w = u @ v \<and> c # u \<in> A \<and> v \<in> star A"
  using assms
proof (induction arbitrary: c w rule: star.induct)
  case star_nil
  then show ?case by simp
next
  case (star_app u v)
  show ?case
  proof (cases u)
    case Nil
    with star_app show ?thesis by simp
  next
    case (Cons a u')
    with star_app.prems have "a = c" "w = u' @ v" by simp_all
    with Cons star_app.hyps show ?thesis by blast
  qed
qed

lemma star_Cons:
  "c # w \<in> star A \<longleftrightarrow> (\<exists>u v. w = u @ v \<and> c # u \<in> A \<and> v \<in> star A)"
proof
  assume "c # w \<in> star A"
  then show "\<exists>u v. w = u @ v \<and> c # u \<in> A \<and> v \<in> star A"
    by (rule star_Cons_dest) simp
next
  assume "\<exists>u v. w = u @ v \<and> c # u \<in> A \<and> v \<in> star A"
  then obtain u v where "w = u @ v" "c # u \<in> A" "v \<in> star A" by blast
  then have "(c # u) @ v \<in> star A"
    by (blast intro: star.star_app)
  with \<open>w = u @ v\<close> show "c # w \<in> star A" by simp
qed

lemma deriv_lang: "w \<in> lang (deriv c r) \<longleftrightarrow> c # w \<in> lang r"
proof (induction r arbitrary: w)
  case (Seq r s)
  then show ?case
    by (auto simp: conc_Cons nullable_lang) (auto simp: conc_def)
next
  case (Star r)
  then show ?case
    by (auto simp: star_Cons) (auto simp: conc_def)
qed auto

lemma test_lang: "test r s \<longleftrightarrow> s \<in> lang r"
  by (induction s arbitrary: r) (simp_all add: nullable_lang deriv_lang)

section \<open>Validation: basic facts\<close>

lemma string_field: "(truthy v \<and> typeof v = ''string'') = (\<exists>s. v = JString s \<and> s \<noteq> [])"
  by (cases v) auto

lemma validateUserInput_strings:
  assumes "validateUserInput input = None"
  shows "\<exists>n e p. name input = JString n \<and> email input = JString e \<and> password input = JString p"
proof -
  from assms have "truthy (name input) \<and> typeof (name input) = ''string''"
    and "truthy (email input) \<and> typeof (email input) = ''string''"
    and "truthy (password input) \<and> typeof (password input) = ''string''"
    by (auto simp: validateUserInput_def split: if_splits)
  then show ?thesis
    by (auto simp: string_field)
qed

lemma validateUserInput_None:
  "validateUserInput \<lparr>name = JString n, email = JString e, password = JString p\<rparr> = None
   \<longleftrightarrow> trim n \<noteq> [] \<and> length n \<le> 255 \<and> isValidEmail e \<and> e \<noteq> [] \<and> length e \<le> 255
        \<and> 8 \<le> length p \<and> length p \<le> 255"
  by (auto simp: validateUserInput_def trim_def)

lemma createUser_catch_validation [simp]:
  "createUser_catch input (ValidationError m f) = ValidationError m f"
  by (simp add: createUser_catch_def)

lemma createUser_catch_unique_violation:
  "createUser_catch input (Error m (Some ''23505'')) = DuplicateEmailError (the_string (email input))"
  by (simp add: createUser_catch_def)

lemma validateUserInput_error:
  "validateUserInput input = Some e \<Longrightarrow> \<exists>m f. e = ValidationError m (Some f)"
  by (auto simp: validateUserInput_def split: if_splits)

lemma createUser_invalid:
  assumes "validateUserInput input = Some e"
  shows "createUser db input = (Inl e, db)"
proof -
  from validateUserInput_error [OF assms] obtain m f where "e = ValidationError m (Some f)"
    by blast
  with assms show ?thesis
    by (simp add: createUser_def createUser_try_def)
qed

section \<open>Validation order\<close>

text \<open>
  C2. On \<^verbatim>\<open>{name: "", email: "bad", password: "short"}\<close> validation fails on the
  field \<^verbatim>\<open>name\<close>, but with the message of the presence check, not with
  \<^verbatim>\<open>Name cannot be empty\<close>: the empty string is falsy, so the first check takes it.
\<close>

theorem validateUserInput_empty_name_is_required:
  "validateUserInput \<lparr>name = JString '''', email = JString ''bad'', password = JString ''short''\<rparr>
     = Some (ValidationError ''Name is required and must be a string'' (Some ''name''))
   \<and> validateUserInput \<lparr>name = JString '''', email = JString ''bad'', password = JString ''short''\<rparr>
     \<noteq> Some (ValidationError ''Name cannot be empty'' (Some ''name''))"
  by (simp add: validateUserInput_def)

theorem validateUserInput_empty_name_is_required_witness:
  "fst (createUser empty_store
          \<lparr>name = JString '''', email = JString ''bad'', password = JString ''short''\<rparr>)
     = Inl (ValidationError ''Name is required and must be a string'' (Some ''name''))"
  using validateUserInput_empty_name_is_required
  by (simp add: createUser_invalid)

text \<open>
  A name of white space only, but not empty, does get \<^verbatim>\<open>Name cannot be empty\<close>,
  whatever the other two fields hold.
\<close>

lemma validateUserInput_blank_name:
  assumes "n \<noteq> []" and "trim n = []"
  shows "validateUserInput \<lparr>name = JString n, email = e, password = p\<rparr>
           = Some (ValidationError ''Name cannot be empty'' (Some ''name''))"
  using assms by (simp add: validateUserInput_def)

section \<open>Identifiers\<close>

text \<open>
  C4. An identifier string that does not match the UUID pattern makes both
  \<^verbatim>\<open>getUserById\<close> and \<^verbatim>\<open>deleteUserById\<close> throw a \<open>ValidationError\<close> on the field
  \<^verbatim>\<open>id\<close>, and the store is the one they were given: no statement has been issued
  (the counter \<open>statements\<close> included).
\<close>

theorem invalid_identifier_rejected_before_persistence:
  assumes "\<not> isValidUUID s"
  shows "\<exists>m. getUserById db (JString s) = (Inl (ValidationError m (Some ''id'')), db)
           \<and> deleteUserById db (JString s) = (Inl (ValidationError m (Some ''id'')), db)"
  using assms by (simp add: getUserById_def deleteUserById_def)

theorem invalid_identifier_rejected_before_persistence_witness:
  "\<not> isValidUUID ''not-a-valid-uuid''
   \<and> (\<exists>m. getUserById empty_store (JString ''not-a-valid-uuid'')
              = (Inl (ValidationError m (Some ''id'')), empty_store)
          \<and> deleteUserById empty_store (JString ''not-a-valid-uuid'')
              = (Inl (ValidationError m (Some ''id'')), empty_store))"
proof -
  have bad: "\<not> isValidUUID ''not-a-valid-uuid''"
    by code_simp
  from bad invalid_identifier_rejected_before_persistence [OF bad] show ?thesis
    by blast
qed

lemma startsWith_append: "startsWith (s @ b) s"
  by (induction s) auto

lemma includesStr_append: "includesStr (a @ s @ b) s"
proof (induction a)
  case Nil
  show ?case
    by (cases "s @ b") (use startsWith_append [of s b] in auto)
next
  case (Cons c a)
  then show ?case by simp
qed

lemma message_UserNotFoundError_includes: "includesStr (message (UserNotFoundError s)) s"
  using includesStr_append [of "''User with ID '' @ [CHR 0x27]" s "[CHR 0x27] @ '' not found''"]
  by simp

lemma query_healthy:
  "outage db = None \<Longrightarrow>
   query db stmt = execute (db\<lparr>statements := statements db + 1, clock := clock db + 1\<rparr>) stmt"
  by (simp add: query_unfold)

text \<open>
  C5. On a store that answers, a well-formed UUID that no row has makes
  \<^verbatim>\<open>getUserById\<close> and \<^verbatim>\<open>deleteUserById\<close> throw \<open>UserNotFoundError\<close>, whose message
  includes the identifier as it was given. When a row has it, \<^verbatim>\<open>deleteUserById\<close>
  returns (nothing), and on the store it leaves the same call throws
  \<open>UserNotFoundError\<close>.
\<close>

theorem unknown_identifier_not_found:
  assumes "isValidUUID s" and "outage db = None"
  shows "(filter (\<lambda>r. same_uuid (row_id r) s) (users db) = [] \<longrightarrow>
            fst (getUserById db (JString s)) = Inl (UserNotFoundError s)
          \<and> fst (deleteUserById db (JString s)) = Inl (UserNotFoundError s)
          \<and> includesStr (message (UserNotFoundError s)) s)
       \<and> (filter (\<lambda>r. same_uuid (row_id r) s) (users db) \<noteq> [] \<longrightarrow>
            fst (deleteUserById db (JString s)) = Inr ()
          \<and> fst (deleteUserById (snd (deleteUserById db (JString s))) (JString s))
              = Inl (UserNotFoundError s))"
proof -
  from assms have "s \<noteq> []"
    by (auto simp: isValidUUID_def uuidRegex_def Lit_def eval_nat_numeral)
  have get: "filter (\<lambda>r. same_uuid (row_id r) s) (users db) = [] \<Longrightarrow>
      fst (getUserById db (JString s)) = Inl (UserNotFoundError s)"
    using assms \<open>s \<noteq> []\<close> by (simp add: getUserById_def query_healthy)
  have del: "filter (\<lambda>r. same_uuid (row_id r) s) (users db) = [] \<Longrightarrow>
      fst (deleteUserById db (JString s)) = Inl (UserNotFoundError s)"
    using assms \<open>s \<noteq> []\<close> by (simp add: deleteUserById_def query_healthy)
  have del1: "filter (\<lambda>r. same_uuid (row_id r) s) (users db) \<noteq> [] \<Longrightarrow>
      deleteUserById db (JString s)
        = (Inr (), db\<lparr>statements := statements db + 1, clock := clock db + 1,
                       users := filter (\<lambda>r. \<not> same_uuid (row_id r) s) (users db)\<rparr>)"
    using assms \<open>s \<noteq> []\<close> by (simp add: deleteUserById_def query_healthy)
  have del2: "fst (deleteUserById (db\<lparr>statements := statements db + 1, clock := clock db + 1,
                       users := filter (\<lambda>r. \<not> same_uuid (row_id r) s) (users db)\<rparr>) (JString s))
        = Inl (UserNotFoundError s)"
    using assms \<open>s \<noteq> []\<close> by (simp add: deleteUserById_def query_healthy)
  show ?thesis
    using get del del1 del2 message_UserNotFoundError_includes [of s] by simp
qed


theorem unknown_identifier_not_found_witness:
  "isValidUUID ''123e4567-e89b-12d3-a456-426614174000''
   \<and> fst (getUserById empty_store (JString ''123e4567-e89b-12d3-a456-426614174000''))
       = Inl (UserNotFoundError ''123e4567-e89b-12d3-a456-426614174000'')
   \<and> fst (deleteUserById empty_store (JString ''123e4567-e89b-12d3-a456-426614174000''))
       = Inl (UserNotFoundError ''123e4567-e89b-12d3-a456-426614174000'')
   \<and> includesStr (message (UserNotFoundError ''123e4567-e89b-12d3-a456-426614174000''))
        ''123e4567-e89b-12d3-a456-426614174000''
   \<and> fst (deleteUserById johns_store (JString ''123e4567-e89b-12d3-a456-426614174000'')) = Inr ()
   \<and> fst (deleteUserById
             (snd (deleteUserById johns_store (JString ''123e4567-e89b-12d3-a456-426614174000'')))
             (JString ''123e4567-e89b-12d3-a456-426614174000''))
       = Inl (UserNotFoundError ''123e4567-e89b-12d3-a456-426614174000'')"
proof -
  have ok: "isValidUUID ''123e4567-e89b-12d3-a456-426614174000''"
    by code_simp
  have h1: "outage empty_store = None"
    and e1: "filter (\<lambda>r. same_uuid (row_id r) ''123e4567-e89b-12d3-a456-426614174000'')
               (users empty_store) = []"
    by (simp_all add: empty_store_def)
  have h2: "outage johns_store = None"
    and e2: "filter (\<lambda>r. same_uuid (row_id r) ''123e4567-e89b-12d3-a456-426614174000'')
               (users johns_store) \<noteq> []"
    by (simp_all add: johns_store_def same_uuid_def)
  from unknown_identifier_not_found [OF ok h1] unknown_identifier_not_found [OF ok h2] ok e1 e2
  show ?thesis
    by blast
qed

section \<open>The error handlers\<close>

lemma str_defined [simp]: "str s \<noteq> JValue JUndefined"
  by (simp add: str_def)

lemma createUser_validation_error_field:
  assumes "fst (createUser db input) = Inl (ValidationError m f)"
  shows "f \<noteq> None"
proof (cases "validateUserInput input")
  case (Some e)
  with assms createUser_invalid [OF Some, of db] validateUserInput_error [OF Some] show ?thesis
    by auto
next
  case None
  with assms show ?thesis
    by (auto simp: createUser_def createUser_try_def createUser_catch_def query_unfold Let_def
             split: option.splits prod.splits sum.splits list.splits if_splits)
qed

lemma getUserById_validation_error_field:
  "fst (getUserById db v) = Inl (ValidationError m f) \<Longrightarrow> f = Some ''id''"
  by (auto simp: getUserById_def query_unfold Let_def
           split: option.splits prod.splits sum.splits list.splits if_splits)

lemma deleteUserById_validation_error_field:
  "fst (deleteUserById db v) = Inl (ValidationError m f) \<Longrightarrow> f = Some ''id''"
  by (auto simp: deleteUserById_def query_unfold Let_def
           split: option.splits prod.splits sum.splits list.splits if_splits)

text \<open>
  C6. \<open>handleUserRouteError\<close> answers by the first entry that applies, whatever the
  operation: a \<open>ValidationError\<close> with 400 and \<^verbatim>\<open>validation_error\<close>, with the
  error's \<^verbatim>\<open>field\<close> (every \<open>ValidationError\<close> the three operations throw has one); a
  \<open>DuplicateEmailError\<close> with 409, \<^verbatim>\<open>duplicate_email\<close> and the field \<^verbatim>\<open>email\<close>; a
  \<open>UserNotFoundError\<close> with 404 and \<^verbatim>\<open>user_not_found\<close>; any other \<^verbatim>\<open>Error\<close> whose message
  includes \<^verbatim>\<open>connect\<close> with 503, \<^verbatim>\<open>database_unavailable\<close> and \<^verbatim>\<open>details\<close>; everything
  else with 500, \<^verbatim>\<open>internal_server_error\<close> and \<^verbatim>\<open>details\<close>. The message of the first
  three plays no part, so a \<open>ValidationError\<close> whose message includes \<^verbatim>\<open>connect\<close> gets
  400.
\<close>

theorem handleUserRouteError_table:
  "(let r = handleUserRouteError (ValidationError m f) operation
    in status_code r = 400 \<and> property r ''error'' = Some (str ''validation_error'')
       \<and> property r ''message'' = Some (str m) \<and> property r ''field'' = map_option str f)
   \<and> (let r = handleUserRouteError (DuplicateEmailError e) operation
    in status_code r = 409 \<and> property r ''error'' = Some (str ''duplicate_email'')
       \<and> property r ''field'' = Some (str ''email''))
   \<and> (let r = handleUserRouteError (UserNotFoundError i) operation
    in status_code r = 404 \<and> property r ''error'' = Some (str ''user_not_found'')
       \<and> property r ''field'' = None \<and> property r ''details'' = None)
   \<and> (let r = handleUserRouteError (Error m c) operation
    in if includesStr m ''connect''
       then status_code r = 503 \<and> property r ''error'' = Some (str ''database_unavailable'')
            \<and> property r ''details'' = Some (str m)
       else status_code r = 500 \<and> property r ''error'' = Some (str ''internal_server_error'')
            \<and> property r ''details'' = Some (str m))
   \<and> (let r = handleUserRouteError (SyntaxError m b) operation
    in if includesStr m ''connect''
       then status_code r = 503 \<and> property r ''error'' = Some (str ''database_unavailable'')
            \<and> property r ''details'' = Some (str m)
       else status_code r = 500 \<and> property r ''error'' = Some (str ''internal_server_error'')
            \<and> property r ''details'' = Some (str m))
   \<and> (let r = handleUserRouteError (NonError m) operation
    in status_code r = 500 \<and> property r ''error'' = Some (str ''internal_server_error'')
       \<and> property r ''details'' = Some (str m))
   \<and> (fst (createUser db input) = Inl (ValidationError m1 f1) \<longrightarrow> f1 \<noteq> None)
   \<and> (fst (getUserById db v) = Inl (ValidationError m2 f2) \<longrightarrow> f2 \<noteq> None)
   \<and> (fst (deleteUserById db v) = Inl (ValidationError m3 f3) \<longrightarrow> f3 \<noteq> None)"
proof -
  have fields: "(fst (createUser db input) = Inl (ValidationError m1 f1) \<longrightarrow> f1 \<noteq> None)
      \<and> (fst (getUserById db v) = Inl (ValidationError m2 f2) \<longrightarrow> f2 \<noteq> None)
      \<and> (fst (deleteUserById db v) = Inl (ValidationError m3 f3) \<longrightarrow> f3 \<noteq> None)"
    using createUser_validation_error_field getUserById_validation_error_field
      deleteUserById_validation_error_field by blast
  have v: "property (handleUserRouteError (ValidationError m f) operation) ''field'' = map_option str f"
    by (cases f) (simp_all add: property_def sent_def optional_def str_def)
  show ?thesis
    using fields v by (simp add: Let_def property_def sent_def details_of_def)
qed

theorem handleUserRouteError_table_witness:
  "status_code (handleUserRouteError (ValidationError ''cannot connect'' (Some ''id'')) ''deleting user'') = 400
   \<and> property (handleUserRouteError (ValidationError ''cannot connect'' (Some ''id'')) ''deleting user'') ''error''
       = Some (str ''validation_error'')
   \<and> status_code (handleUserRouteError (Error ''cannot connect'' None) ''deleting user'') = 503
   \<and> fst (createUser empty_store (john\<lparr>name := JUndefined\<rparr>))
       = Inl (ValidationError ''Name is required and must be a string'' (Some ''name''))
   \<and> fst (getUserById empty_store (JString ''not-a-valid-uuid''))
       = Inl (ValidationError ''User ID must be a valid UUID'' (Some ''id''))
   \<and> fst (deleteUserById empty_store (JString ''not-a-valid-uuid''))
       = Inl (ValidationError ''User ID must be a valid UUID'' (Some ''id''))
   \<and> Some ''name'' \<noteq> (None :: string option) \<and> Some ''id'' \<noteq> (None :: string option)"
proof -
  have bad: "\<not> isValidUUID ''not-a-valid-uuid''"
    by code_simp
  have inc: "includesStr ''cannot connect'' ''connect''"
    by simp
  have c: "fst (createUser empty_store (john\<lparr>name := JUndefined\<rparr>))
       = Inl (ValidationError ''Name is required and must be a string'' (Some ''name''))"
    by (simp add: createUser_invalid validateUserInput_def john_def)
  have g: "fst (getUserById empty_store (JString ''not-a-valid-uuid''))
       = Inl (ValidationError ''User ID must be a valid UUID'' (Some ''id''))"
    using bad by (simp add: getUserById_def)
  have d: "fst (deleteUserById empty_store (JString ''not-a-valid-uuid''))
       = Inl (ValidationError ''User ID must be a valid UUID'' (Some ''id''))"
    using bad by (simp add: deleteUserById_def)
  from handleUserRouteError_table
    [where m = "''cannot connect''" and f = "Some ''id''" and operation = "''deleting user''"
       and c = None and db = empty_store and input = "john\<lparr>name := JUndefined\<rparr>"
       and ?m1.0 = "''Name is required and must be a string''" and ?f1.0 = "Some ''name''"
       and v = "JString ''not-a-valid-uuid''"
       and ?m2.0 = "''User ID must be a valid UUID''" and ?f2.0 = "Some ''id''"
       and ?m3.0 = "''User ID must be a valid UUID''" and ?f3.0 = "Some ''id''"]
    inc c g d
  show ?thesis
    by (simp add: Let_def)
qed

lemma has_envelope_handleUserRouteError: "has_envelope (handleUserRouteError e operation)"
  by (cases e) (simp_all add: has_envelope_def property_def sent_def)

lemma has_envelope_missing_id: "has_envelope missing_id"
  by (simp add: has_envelope_def property_def sent_def missing_id_def)

lemma post_users_envelope:
  "400 \<le> status_code (fst (post_users db b)) \<Longrightarrow> has_envelope (fst (post_users db b))"
proof -
  have "has_envelope
     \<lparr>status_code = 400,
      body = Some [(''status'', str ''error''), (''error'', str ''invalid_request''),
                   (''message'', str ''Request body must be a JSON object''),
                   (''field'', str ''body'')]\<rparr>"
    by (simp add: has_envelope_def property_def sent_def)
  then show "400 \<le> status_code (fst (post_users db b)) \<Longrightarrow> has_envelope (fst (post_users db b))"
    by (auto simp: post_users_def has_envelope_handleUserRouteError
             simp del: handleUserRouteError.simps
             split: prod.splits sum.splits if_splits)
qed

lemma get_users_id_envelope:
  "400 \<le> status_code (fst (get_users_id db s)) \<Longrightarrow> has_envelope (fst (get_users_id db s))"
  by (auto simp: get_users_id_def has_envelope_handleUserRouteError has_envelope_missing_id
           simp del: handleUserRouteError.simps
           split: prod.splits sum.splits if_splits)

lemma delete_users_id_envelope:
  "400 \<le> status_code (fst (delete_users_id db s)) \<Longrightarrow> has_envelope (fst (delete_users_id db s))"
  by (auto simp: delete_users_id_def has_envelope_handleUserRouteError has_envelope_missing_id
           simp del: handleUserRouteError.simps
           split: prod.splits sum.splits if_splits)

lemma app_error_no_status:
  "property (app_error development e) ''status'' = None
   \<and> property (app_error development e) ''error'' \<noteq> None
   \<and> property (app_error development e) ''message'' \<noteq> None"
  by (cases e)
     (auto simp: app_error_def jsonParsingErrorHandler_def globalErrorHandler_def
                 property_def sent_def)

text \<open>
  C7. The code does not meet the claim. The answer of the application to a
  malformed JSON body (the body parser's \<^verbatim>\<open>SyntaxError\<close>, which has a \<^verbatim>\<open>body\<close>
  property) is the status 400 with \<^verbatim>\<open>error: 'invalid_json'\<close>, \<^verbatim>\<open>message\<close> and
  \<^verbatim>\<open>details\<close>, and no \<^verbatim>\<open>status\<close>; more generally, whatever error reaches the two
  error handlers of the application, in either environment, the response has an
  \<^verbatim>\<open>error\<close> and a \<^verbatim>\<open>message\<close> property and no \<^verbatim>\<open>status\<close> property, so it lacks the
  envelope the claim requires. Every other error response has the envelope: those of
  \<open>handleUserRouteError\<close>, the \<^verbatim>\<open>invalid_request\<close> answer to a body that is no
  object, the answer to a missing identifier, and that of the health check. The
  omission is in the two handlers alone.
\<close>

theorem application_error_handlers_omit_status:
  "app_error development (SyntaxError m True)
     = \<lparr>status_code = 400,
        body = Some [(''error'', str ''invalid_json''),
                     (''message'', str ''Request body contains invalid JSON''),
                     (''details'', str m)]\<rparr>
   \<and> \<not> has_envelope (app_error development e)
   \<and> property (app_error development e) ''status'' = None
   \<and> property (app_error development e) ''error'' \<noteq> None
   \<and> property (app_error development e) ''message'' \<noteq> None
   \<and> has_envelope (handleUserRouteError e operation)
   \<and> (400 \<le> status_code (fst (post_users db b)) \<longrightarrow> has_envelope (fst (post_users db b)))
   \<and> (400 \<le> status_code (fst (get_users_id db s)) \<longrightarrow> has_envelope (fst (get_users_id db s)))
   \<and> (400 \<le> status_code (fst (delete_users_id db s)) \<longrightarrow> has_envelope (fst (delete_users_id db s)))
   \<and> has_envelope (health_check_failed e)"
proof -
  have json: "app_error development (SyntaxError m True)
     = \<lparr>status_code = 400,
        body = Some [(''error'', str ''invalid_json''),
                     (''message'', str ''Request body contains invalid JSON''),
                     (''details'', str m)]\<rparr>"
    by (simp add: app_error_def jsonParsingErrorHandler_def)
  have none: "\<not> has_envelope (app_error development e)"
    using app_error_no_status [of development e] by (simp add: has_envelope_def)
  have health: "has_envelope (health_check_failed e)"
    by (simp add: has_envelope_def health_check_failed_def property_def sent_def)
  from json none health show ?thesis
    using has_envelope_handleUserRouteError post_users_envelope get_users_id_envelope
      delete_users_id_envelope app_error_no_status by blast
qed

theorem application_error_handlers_omit_status_witness:
  "app_error False (SyntaxError ''Unexpected token i in JSON at position 1'' True)
     = \<lparr>status_code = 400,
        body = Some [(''error'', str ''invalid_json''),
                     (''message'', str ''Request body contains invalid JSON''),
                     (''details'', str ''Unexpected token i in JSON at position 1'')]\<rparr>
   \<and> \<not> has_envelope (app_error False (SyntaxError ''Unexpected token i in JSON at position 1'' True))
   \<and> property (app_error False (SyntaxError ''Unexpected token i in JSON at position 1'' True))
         ''status'' = None
   \<and> 400 \<le> status_code (fst (post_users empty_store (JBoolean True)))
   \<and> has_envelope (fst (post_users empty_store (JBoolean True)))
   \<and> 400 \<le> status_code (fst (get_users_id empty_store ''not-a-valid-uuid''))
   \<and> has_envelope (fst (get_users_id empty_store ''not-a-valid-uuid''))
   \<and> 400 \<le> status_code (fst (delete_users_id empty_store ''not-a-valid-uuid''))
   \<and> has_envelope (fst (delete_users_id empty_store ''not-a-valid-uuid''))"
proof -
  have bad: "\<not> isValidUUID ''not-a-valid-uuid''"
    by code_simp
  have p: "400 \<le> status_code (fst (post_users empty_store (JBoolean True)))"
    by (simp add: post_users_def)
  have g: "400 \<le> status_code (fst (get_users_id empty_store ''not-a-valid-uuid''))"
    using bad by (simp add: get_users_id_def getUserById_def)
  have d: "400 \<le> status_code (fst (delete_users_id empty_store ''not-a-valid-uuid''))"
    using bad by (simp add: delete_users_id_def deleteUserById_def)
  from application_error_handlers_omit_status
    [where db = empty_store and b = "JBoolean True" and s = "''not-a-valid-uuid''"
       and development = False and m = "''Unexpected token i in JSON at position 1''"
       and e = "SyntaxError ''Unexpected token i in JSON at position 1'' True"]
    p g d
  show ?thesis
    by blast
qed

section \<open>Empty strings\<close>

text \<open>
  C10. The empty string counts as absent. \<^verbatim>\<open>getUserById("")\<close> and
  \<^verbatim>\<open>deleteUserById("")\<close> throw the \<open>ValidationError\<close> of the presence check on
  \<^verbatim>\<open>id\<close> (\<^verbatim>\<open>User ID is required and must be a string\<close>), not the one of the UUID
  pattern. A name \<^verbatim>\<open>""\<close> gets \<^verbatim>\<open>Name is required and must be a string\<close>, whatever
  the other fields hold, and a password \<^verbatim>\<open>""\<close> on an input that is valid otherwise
  gets \<^verbatim>\<open>Password is required and must be a string\<close>; with a password \<^verbatim>\<open>""\<close>
  validation never answers \<^verbatim>\<open>Password must be at least 8 characters long\<close>.
\<close>

theorem empty_string_counts_as_absent:
  "getUserById db (JString '''')
     = (Inl (ValidationError ''User ID is required and must be a string'' (Some ''id'')), db)
   \<and> deleteUserById db (JString '''')
     = (Inl (ValidationError ''User ID is required and must be a string'' (Some ''id'')), db)
   \<and> validateUserInput \<lparr>name = JString '''', email = e, password = p\<rparr>
     = Some (ValidationError ''Name is required and must be a string'' (Some ''name''))
   \<and> (validateUserInput input = None \<longrightarrow>
        validateUserInput (input\<lparr>password := JString ''''\<rparr>)
          = Some (ValidationError ''Password is required and must be a string'' (Some ''password'')))
   \<and> validateUserInput \<lparr>name = n, email = e, password = JString ''''\<rparr>
     \<noteq> Some (ValidationError ''Password must be at least 8 characters long'' (Some ''password''))"
  by (auto simp: getUserById_def deleteUserById_def validateUserInput_def split: if_splits)

theorem empty_string_counts_as_absent_witness:
  "validateUserInput john = None
   \<and> validateUserInput (john\<lparr>password := JString ''''\<rparr>)
       = Some (ValidationError ''Password is required and must be a string'' (Some ''password''))
   \<and> validateUserInput \<lparr>name = JString '''', email = JString ''bad'', password = JString ''short''\<rparr>
       = Some (ValidationError ''Name is required and must be a string'' (Some ''name''))
   \<and> fst (getUserById empty_store (JString ''''))
       = Inl (ValidationError ''User ID is required and must be a string'' (Some ''id''))"
proof -
  have ok: "validateUserInput john = None"
    by code_simp
  from empty_string_counts_as_absent
    [where input = john and db = empty_store and e = "JString ''bad''" and p = "JString ''short''"]
    ok
  show ?thesis
    by simp
qed

section \<open>Creating users\<close>

lemma isWhiteSpace_toLowerCaseUnit [simp]: "isWhiteSpace (toLowerCaseUnit c) = isWhiteSpace c"
proof -
  have "(of_char c :: nat) mod 256 = of_char c"
    by (rule of_char_mod_256)
  then have "(of_char c :: nat) < 256"
    by (metis mod_less_divisor zero_less_numeral)
  then show ?thesis
    by (auto simp: isWhiteSpace_def toLowerCaseUnit_def Let_def)
qed

lemma dropWhile_toLowerCase:
  "dropWhile isWhiteSpace (toLowerCase s) = toLowerCase (dropWhile isWhiteSpace s)"
  by (induction s) (simp_all add: toLowerCase_def)

lemma trim_toLowerCase: "trim (toLowerCase s) = toLowerCase (trim s)"
proof -
  have "rev (toLowerCase s) = toLowerCase (rev s)" for s
    by (simp add: toLowerCase_def rev_map)
  then show ?thesis
    by (simp add: trim_def dropWhile_toLowerCase)
qed

lemma createUser_valid:
  assumes "validateUserInput input = None"
  shows "createUser db input =
    (let db1 = db\<lparr>statements := statements db + 1, clock := clock db + 1\<rparr>;
         n = trim (the_string (name input));
         e = trim (toLowerCase (the_string (email input)))
     in case outage db of
          Some (m, c) \<Rightarrow>
            (Inl (if c = Some ''23505'' then DuplicateEmailError (the_string (email input))
                  else Error m c), db1)
        | None \<Rightarrow>
            if e \<in> set (map row_email (users db))
            then (Inl (DuplicateEmailError (the_string (email input))), db1)
            else (Inr [(''id'', Text (uuid_of_counter (uuid_counter db))), (''name'', Text n),
                       (''email'', Text e), (''created_at'', Timestamp (clock db + 1)),
                       (''updated_at'', Timestamp (clock db + 1))],
                  db1\<lparr>users := users db @
                         [\<lparr>row_id = uuid_of_counter (uuid_counter db), row_name = n, row_email = e,
                           row_password = hashPassword (the_string (password input)),
                           row_created_at = clock db + 1, row_updated_at = clock db + 1\<rparr>],
                       uuid_counter := uuid_counter db + 1\<rparr>))"
  using assms
  by (simp add: createUser_def createUser_try_def createUser_catch_def query_unfold returning_def
           Let_def split: option.splits prod.splits)

text \<open>
  C1. An input that passes \<open>validateUserInput\<close> has three strings. On a store that
  answers and has no row with the normalised email, \<open>createUser\<close> returns the object
  of the five columns after \<^verbatim>\<open>RETURNING\<close>. Whenever it returns an object, the
  \<^verbatim>\<open>name\<close> property is the trimmed name of the input, the \<^verbatim>\<open>email\<close> property its
  trimmed, lower-cased email, the properties are \<^verbatim>\<open>id\<close>, \<^verbatim>\<open>name\<close>, \<^verbatim>\<open>email\<close>,
  \<^verbatim>\<open>created_at\<close> and \<^verbatim>\<open>updated_at\<close>, and there is no \<^verbatim>\<open>password\<close> property.
\<close>

theorem create_returns_normalized_record:
  assumes "validateUserInput input = None"
  shows "\<exists>n e p. name input = JString n \<and> email input = JString e \<and> password input = JString p
     \<and> (outage db = None \<and> toLowerCase (trim e) \<notin> set (map row_email (users db)) \<longrightarrow>
          fst (createUser db input)
            = Inr [(''id'', Text (uuid_of_counter (uuid_counter db))), (''name'', Text (trim n)),
                   (''email'', Text (toLowerCase (trim e))),
                   (''created_at'', Timestamp (clock db + 1)),
                   (''updated_at'', Timestamp (clock db + 1))])
     \<and> (\<forall>user db'. createUser db input = (Inr user, db') \<longrightarrow>
          map_of user ''name'' = Some (Text (trim n))
          \<and> map_of user ''email'' = Some (Text (toLowerCase (trim e)))
          \<and> map fst user = [''id'', ''name'', ''email'', ''created_at'', ''updated_at'']
          \<and> map_of user ''password'' = None)"
proof -
  from validateUserInput_strings [OF assms] obtain n e p
    where fields: "name input = JString n" "email input = JString e" "password input = JString p"
    by blast
  have ok: "outage db = None \<and> toLowerCase (trim e) \<notin> set (map row_email (users db)) \<longrightarrow>
          fst (createUser db input)
            = Inr [(''id'', Text (uuid_of_counter (uuid_counter db))), (''name'', Text (trim n)),
                   (''email'', Text (toLowerCase (trim e))),
                   (''created_at'', Timestamp (clock db + 1)),
                   (''updated_at'', Timestamp (clock db + 1))]"
    using fields by (simp add: createUser_valid [OF assms] trim_toLowerCase Let_def)
  have ret: "\<forall>user db'. createUser db input = (Inr user, db') \<longrightarrow>
          map_of user ''name'' = Some (Text (trim n))
          \<and> map_of user ''email'' = Some (Text (toLowerCase (trim e)))
          \<and> map fst user = [''id'', ''name'', ''email'', ''created_at'', ''updated_at'']
          \<and> map_of user ''password'' = None"
    using fields
    by (auto simp: createUser_valid [OF assms] trim_toLowerCase Let_def
             split: option.splits if_splits)
  from fields ok ret show ?thesis
    by blast
qed

lemma john_valid: "validateUserInput john = None"
  by code_simp

lemma padded_john_valid: "validateUserInput padded_john = None"
  by code_simp

lemma trim_John_Doe: "trim ''John Doe'' = ''John Doe''"
  by (simp add: trim_def isWhiteSpace_def)

lemma trim_padded_John_Doe: "trim ''  John Doe '' = ''John Doe''"
  by (simp add: trim_def isWhiteSpace_def)

lemma trim_JOHN: "toLowerCase (trim ''JOHN@Example.com'') = ''john@example.com''"
  by code_simp

lemma uuid_of_counter_0: "uuid_of_counter 0 = ''00000000-0000-0000-0000-000000000000''"
  by code_simp

theorem create_returns_normalized_record_witness:
  "validateUserInput padded_john = None
   \<and> name padded_john = JString ''  John Doe ''
   \<and> email padded_john = JString ''JOHN@Example.com''
   \<and> fst (createUser empty_store padded_john)
       = Inr [(''id'', Text ''00000000-0000-0000-0000-000000000000''), (''name'', Text ''John Doe''),
              (''email'', Text ''john@example.com''), (''created_at'', Timestamp 1),
              (''updated_at'', Timestamp 1)]
   \<and> map_of (projr (fst (createUser empty_store padded_john))) ''name'' = Some (Text ''John Doe'')
   \<and> map_of (projr (fst (createUser empty_store padded_john))) ''password'' = None"
proof -
  from create_returns_normalized_record [OF padded_john_valid, of empty_store]
  have first: "fst (createUser empty_store padded_john)
          = Inr [(''id'', Text (uuid_of_counter (uuid_counter empty_store))),
                 (''name'', Text (trim ''  John Doe '')),
                 (''email'', Text (toLowerCase (trim ''JOHN@Example.com''))),
                 (''created_at'', Timestamp (clock empty_store + 1)),
                 (''updated_at'', Timestamp (clock empty_store + 1))]"
    by (auto simp: padded_john_def empty_store_def)
  then have "fst (createUser empty_store padded_john)
       = Inr [(''id'', Text ''00000000-0000-0000-0000-000000000000''), (''name'', Text ''John Doe''),
              (''email'', Text ''john@example.com''), (''created_at'', Timestamp 1),
              (''updated_at'', Timestamp 1)]"
    by (simp add: trim_padded_John_Doe trim_JOHN uuid_of_counter_0 empty_store_def)
  then show ?thesis
    using padded_john_valid by (simp add: padded_john_def)
qed

section \<open>Duplicate emails\<close>

lemma star_Cls_chars:
  assumes "s \<in> star {[c] | c. p c}"
  shows "\<forall>c\<in>set s. p c"
  using assms by (induction rule: star.induct) auto

lemma lang_Plus_Cls_chars:
  assumes "s \<in> lang (Plus (Cls p))"
  shows "\<forall>c\<in>set s. p c"
proof -
  from assms obtain u v where "s = u @ v" "u \<in> {[c] | c. p c}" "v \<in> star {[c] | c. p c}"
    by (auto simp: Plus_def conc_def)
  with star_Cls_chars [of v p] show ?thesis
    by auto
qed

lemma isValidEmail_no_space:
  assumes "isValidEmail e"
  shows "\<forall>c\<in>set e. \<not> isWhiteSpace c"
proof -
  let ?p = "\<lambda>c. \<not> isWhiteSpace c \<and> c \<noteq> CHR ''@''"
  from assms have "e \<in> lang emailRegex"
    by (simp add: isValidEmail_def test_lang)
  then obtain a b c where e: "e = a @ ''@'' @ b @ ''.'' @ c"
    and parts: "a \<in> lang (Plus (Cls ?p))" "b \<in> lang (Plus (Cls ?p))" "c \<in> lang (Plus (Cls ?p))"
    by (auto simp: emailRegex_def Let_def Lit_def conc_def)
  have "\<not> isWhiteSpace CHR ''@''" "\<not> isWhiteSpace CHR ''.''"
    by (simp_all add: isWhiteSpace_def)
  with e parts [THEN lang_Plus_Cls_chars] show ?thesis
    by auto
qed

lemma trim_no_space:
  assumes "\<forall>c\<in>set s. \<not> isWhiteSpace c"
  shows "trim s = s"
proof -
  have "dropWhile isWhiteSpace t = t" if "\<forall>c\<in>set t. \<not> isWhiteSpace c" for t
    using that by (cases t) simp_all
  from this [of s] this [of "rev s"] assms show ?thesis
    by (simp add: trim_def)
qed

lemma isValidEmail_trim: "isValidEmail e \<Longrightarrow> trim e = e"
  by (rule trim_no_space) (rule isValidEmail_no_space)

lemma createUser_untrimmed_email:
  assumes "validateUserInput \<lparr>name = JString n, email = JString e1, password = JString p\<rparr> = None"
    and "trim e \<noteq> e"
  shows "createUser db \<lparr>name = JString n, email = JString e, password = pw\<rparr>
           = (Inl (ValidationError ''Email must be a valid email address'' (Some ''email'')), db)"
proof -
  from assms(2) have "\<not> isValidEmail e" "e \<noteq> []"
    using isValidEmail_trim [of e] by (auto simp: trim_def)
  with assms(1)
  have "validateUserInput \<lparr>name = JString n, email = JString e, password = pw\<rparr>
          = Some (ValidationError ''Email must be a valid email address'' (Some ''email''))"
    by (simp add: validateUserInput_def split: if_splits)
  then show ?thesis
    by (rule createUser_invalid)
qed

lemma createUser_empty_store_john:
  "fst (createUser empty_store john)
     = Inr [(''id'', Text ''00000000-0000-0000-0000-000000000000''), (''name'', Text ''John Doe''),
            (''email'', Text ''john@example.com''), (''created_at'', Timestamp 1),
            (''updated_at'', Timestamp 1)]"
  using createUser_valid [OF john_valid, of empty_store]
  by (simp add: Let_def empty_store_def john_def trim_toLowerCase trim_John_Doe trim_JOHN
        uuid_of_counter_0)

text \<open>
  C3, as stated, fails when the second email differs from the first by surrounding
  white space: the pattern of \<open>isValidEmail\<close> takes no white space, so the second call
  throws a \<open>ValidationError\<close> on \<^verbatim>\<open>email\<close> before any insert, not a
  \<open>DuplicateEmailError\<close>.
\<close>

theorem second_create_with_spaces_is_validation_error:
  "fst (createUser empty_store john)
     = Inr [(''id'', Text ''00000000-0000-0000-0000-000000000000''), (''name'', Text ''John Doe''),
            (''email'', Text ''john@example.com''), (''created_at'', Timestamp 1),
            (''updated_at'', Timestamp 1)]
   \<and> trim (toLowerCase '' john@example.com '') = trim (toLowerCase ''JOHN@Example.com'')
   \<and> fst (createUser (snd (createUser empty_store john))
             (john\<lparr>email := JString '' john@example.com ''\<rparr>))
       = Inl (ValidationError ''Email must be a valid email address'' (Some ''email''))
   \<and> fst (createUser (snd (createUser empty_store john))
             (john\<lparr>email := JString '' john@example.com ''\<rparr>))
       \<noteq> Inl (DuplicateEmailError '' john@example.com '')"
proof -
  have norm: "trim (toLowerCase '' john@example.com '') = trim (toLowerCase ''JOHN@Example.com'')"
    by code_simp
  have "validateUserInput (john\<lparr>email := JString '' john@example.com ''\<rparr>)
          = Some (ValidationError ''Email must be a valid email address'' (Some ''email''))"
    by code_simp
  from createUser_invalid [OF this] createUser_empty_store_john norm show ?thesis
    by simp
qed

text \<open>
  C3, amended. When a \<open>createUser\<close> has returned and a second input that passes
  validation has an email that differs from the first only by the case of its
  letters (or not at all), \<open>createUser\<close> on the store the first call left throws
  \<open>DuplicateEmailError\<close> with the second email as it was given: the insert is
  rejected with code 23505 and the \<^verbatim>\<open>catch\<close> clause translates that. An email
  with surrounding white space never reaches the insert: it gets the
  \<open>ValidationError\<close> on \<^verbatim>\<open>email\<close>, and the store is untouched.
\<close>

theorem second_create_same_email_is_duplicate:
  assumes first: "createUser db \<lparr>name = JString n1, email = JString e1, password = JString p1\<rparr>
                    = (Inr user, db1)"
    and valid2: "validateUserInput \<lparr>name = JString n2, email = JString e2, password = JString p2\<rparr>
                    = None"
    and same: "toLowerCase e2 = toLowerCase e1"
  shows "createUser db1 \<lparr>name = JString n2, email = JString e2, password = JString p2\<rparr>
           = (Inl (DuplicateEmailError e2),
              db1\<lparr>statements := statements db1 + 1, clock := clock db1 + 1\<rparr>)
       \<and> (\<forall>e pw db'. trim e \<noteq> e \<longrightarrow>
             createUser db' \<lparr>name = JString n2, email = JString e, password = pw\<rparr>
               = (Inl (ValidationError ''Email must be a valid email address'' (Some ''email'')), db'))"
proof -
  have valid1: "validateUserInput \<lparr>name = JString n1, email = JString e1, password = JString p1\<rparr> = None"
  proof (cases "validateUserInput \<lparr>name = JString n1, email = JString e1, password = JString p1\<rparr>")
    case None
    then show ?thesis .
  next
    case (Some err)
    from createUser_invalid [OF Some, of db] first show ?thesis
      by simp
  qed
  from first have db1: "outage db1 = None"
    "trim (toLowerCase e1) \<in> set (map row_email (users db1))"
    by (auto simp: createUser_valid [OF valid1] Let_def split: option.splits if_splits)
  with same have dup: "createUser db1 \<lparr>name = JString n2, email = JString e2, password = JString p2\<rparr>
           = (Inl (DuplicateEmailError e2),
              db1\<lparr>statements := statements db1 + 1, clock := clock db1 + 1\<rparr>)"
    by (simp add: createUser_valid [OF valid2] Let_def trim_toLowerCase)
  from dup createUser_untrimmed_email [OF valid2] show ?thesis
    by blast
qed

theorem second_create_same_email_is_duplicate_witness:
  "validateUserInput jane = None
   \<and> toLowerCase ''john@EXAMPLE.com'' = toLowerCase ''JOHN@Example.com''
   \<and> fst (createUser (snd (createUser empty_store john)) jane)
       = Inl (DuplicateEmailError ''john@EXAMPLE.com'')
   \<and> createUser empty_store (jane\<lparr>email := JString '' john@example.com''\<rparr>)
       = (Inl (ValidationError ''Email must be a valid email address'' (Some ''email'')), empty_store)"
proof -
  have first: "createUser empty_store \<lparr>name = JString ''John Doe'', email = JString ''JOHN@Example.com'',
                   password = JString ''password123''\<rparr>
     = (Inr [(''id'', Text ''00000000-0000-0000-0000-000000000000''), (''name'', Text ''John Doe''),
            (''email'', Text ''john@example.com''), (''created_at'', Timestamp 1),
            (''updated_at'', Timestamp 1)],
        snd (createUser empty_store john))"
    using createUser_empty_store_john
    by (simp add: john_def prod_eq_iff)
  have valid2: "validateUserInput \<lparr>name = JString ''Jane Doe'', email = JString ''john@EXAMPLE.com'',
           password = JString ''differentpass123''\<rparr> = None"
    by code_simp
  have same: "toLowerCase ''john@EXAMPLE.com'' = toLowerCase ''JOHN@Example.com''"
    by code_simp
  have sp: "trim '' john@example.com'' \<noteq> '' john@example.com''"
    by code_simp
  from second_create_same_email_is_duplicate [OF first valid2 same] sp valid2 same
  show ?thesis
    by (simp add: jane_def)
qed

section \<open>The stored password\<close>

lemma length_rounds: "length (rounds ks ws st) = length st"
  by (induction ks ws st rule: rounds.induct) (simp_all add: Let_def)

lemma length_compress: "length (compress hs b) = length hs"
  by (simp add: compress_def Let_def length_rounds)

lemma length_blocks: "length (blocks hs bs) = length hs"
proof (induction hs bs rule: blocks.induct)
  case (1 hs bs)
  show ?case
  proof (cases "length bs < 64")
    case True
    then show ?thesis
      by (simp add: blocks.simps [of hs bs])
  next
    case False
    then have "blocks hs bs = blocks (compress hs (take 64 bs)) (drop 64 bs)"
      by (simp add: blocks.simps [of hs bs])
    with False "1.IH" show ?thesis
      by (simp add: length_compress)
  qed
qed

lemma length_primes64: "length primes64 = 64"
  by (simp add: primes64_def)

lemma length_H256: "length H256 = 8"
  by (simp add: H256_def length_primes64)

lemma length_concat_w32_bytes: "length (concat (map w32_bytes ws)) = 4 * length ws"
  by (induction ws) (simp_all add: w32_bytes_def)

lemma length_hex: "length (hex bs) = 2 * length bs"
  by (induction bs) (simp_all add: hex_def)

lemma hexNibble_lower: "hexNibble n \<in> set ''0123456789abcdef''"
  unfolding hexNibble_def by (rule nth_mem) simp

lemma hex_lower: "c \<in> set (hex bs) \<Longrightarrow> c \<in> set ''0123456789abcdef''"
proof (induction bs)
  case Nil
  then show ?case by (simp add: hex_def)
next
  case (Cons b bs)
  from Cons.prems have "c = hexNibble (unat (drop_bit 4 b)) \<or> c = hexNibble (unat (b AND 0x0f))
      \<or> c \<in> set (hex bs)"
    by (auto simp: hex_def)
  with Cons.IH hexNibble_lower show ?case
    by blast
qed

lemma length_sha256: "length (sha256 msg) = 32"
  by (simp add: sha256_def length_concat_w32_bytes length_blocks length_H256)

lemma length_hashPassword: "length (hashPassword pw) = 64"
  by (simp add: hashPassword_def length_hex length_sha256)

subsection \<open>Computing digests\<close>

lemma W_mod: "w32_of (a mod 4294967296) = w32_of a"
  by (simp add: w32_of_def word_of_nat_eq_iff take_bit_eq_mod)

lemma W_add: "w32_of a + w32_of b = w32_of ((a + b) mod 4294967296)"
  by (simp add: W_mod) (simp add: w32_of_def)

lemma W_xor: "w32_of a XOR w32_of b = w32_of (a XOR b)"
  by (simp add: w32_of_def of_nat_xor_eq)

lemma W_and: "w32_of a AND w32_of b = w32_of (a AND b)"
  by (simp add: w32_of_def of_nat_and_eq)

lemma W_or: "w32_of a OR w32_of b = w32_of (a OR b)"
  by (simp add: w32_of_def of_nat_or_eq)

lemma W_not: "NOT (w32_of a) = w32_of (4294967295 - a mod 4294967296)"
proof -
  have "a mod 4294967296 \<le> 4294967295"
    by simp
  then have "w32_of (4294967295 - a mod 4294967296) = w32_of 4294967295 - w32_of (a mod 4294967296)"
    by (simp add: w32_of_def of_nat_diff)
  also have "\<dots> = - 1 - w32_of a"
    by (simp add: W_mod) (simp add: w32_of_def)
  finally show ?thesis
    by (simp add: not_eq_complement)
qed

lemma W_drop: "drop_bit n (w32_of a) = w32_of (a mod 4294967296 div 2 ^ n)"
proof -
  have small: "a mod 4294967296 div 2 ^ n < 4294967296"
    by (rule le_less_trans [OF div_le_dividend]) simp
  have "unat (drop_bit n (w32_of a)) = drop_bit n (unat (w32_of a))"
    by (rule unat_drop_bit_eq)
  also have "\<dots> = a mod 4294967296 div 2 ^ n"
    by (simp add: w32_of_def unat_of_nat drop_bit_eq_div)
  also from small have "\<dots> = unat (w32_of (a mod 4294967296 div 2 ^ n))"
    by (simp add: w32_of_def unat_of_nat)
  finally show ?thesis
    by (simp add: word_unat_eq_iff)
qed

lemma W_push: "push_bit n (w32_of a) = w32_of ((a * 2 ^ n) mod 4294967296)"
  by (simp add: W_mod) (simp add: w32_of_def push_bit_eq_mult)

lemma rounds_step:
  "rounds (k # ks) (w # ws) [a, b, c, d, e, f, g, h] =
     rounds ks ws [(h + bsig1 e + Ch e f g + k + w) + (bsig0 a + Maj a b c), a, b, c,
                   d + (h + bsig1 e + Ch e f g + k + w), e, f, g]"
  by (simp add: Let_def)

lemma schedule_numeral:
  "schedule (numeral k) ws =
     schedule (pred_numeral k) ((ssig1 (ws ! 1) + ws ! 6 + ssig0 (ws ! 14) + ws ! 15) # ws)"
  by (simp add: numeral_eq_Suc)

lemma replicate_numeral: "replicate (numeral k) x = x # replicate (pred_numeral k) x"
  by (simp add: numeral_eq_Suc)

lemma iroot_numeral:
  "iroot e x (numeral k) r =
     iroot e x (pred_numeral k) (if (r + 2 ^ pred_numeral k) ^ e \<le> x then r + 2 ^ pred_numeral k else r)"
  by (simp add: numeral_eq_Suc)

lemma frac_root_W: "frac_root e p = w32_of (iroot e (p * 2 ^ (32 * e)) 35 0 mod 4294967296)"
  by (simp add: W_mod frac_root_def) (simp add: w32_of_def)

lemmas sha_eval = schedule_numeral rounds_step ssig0_def ssig1_def bsig0_def bsig1_def Ch_def
  Maj_def rotr_def W_add W_xor W_and W_or W_not W_drop W_push

lemma ucast_W: "(ucast (w32_of a) :: byte) = byte_of a"
  by (simp add: w32_of_def byte_of_def unsigned_of_nat word_of_nat_eq_iff)

lemma B_mod: "byte_of (a mod 256) = byte_of a"
  by (simp add: byte_of_def word_of_nat_eq_iff take_bit_eq_mod)

lemma w32_bytes_W:
  "w32_bytes (w32_of n) =
     [byte_of (n mod 4294967296 div 2 ^ 24), byte_of (n mod 4294967296 div 2 ^ 16),
      byte_of (n mod 4294967296 div 2 ^ 8), byte_of n]"
  by (simp add: w32_bytes_def W_drop ucast_W)

lemma unat_B: "unat (byte_of n) = n mod 256"
  by (simp add: byte_of_def unat_of_nat)

lemma hex_B: "hex (byte_of n # bs) = hexNibble (n mod 256 div 16) # hexNibble (n mod 16) # hex bs"
proof -
  have "unat (drop_bit 4 (byte_of n)) = drop_bit 4 (unat (byte_of n))"
    by (rule unat_drop_bit_eq)
  then have hi: "unat (drop_bit 4 (byte_of n)) = n mod 256 div 16"
    by (simp add: unat_B drop_bit_eq_div)
  have "byte_of n AND 0x0f = byte_of (n AND 15)"
    by (simp add: byte_of_def of_nat_and_eq)
  also have "n AND 15 = n mod 16"
    using take_bit_eq_mask [of 4 n] by (simp add: take_bit_eq_mod mask_eq_exp_minus_1)
  finally have lo: "unat (byte_of n AND 0x0f) = n mod 16"
    by (simp add: unat_B mod_mod_cancel)
  show ?thesis
    by (simp add: hex_def hi lo)
qed

lemma hex_Nil: "hex [] = []"
  by (simp add: hex_def)

lemma blocks_single: "length bs = 64 \<Longrightarrow> blocks hs bs = compress hs bs"
  by (simp add: blocks.simps [of hs bs] blocks.simps [of _ "[]"])

lemma blocks_two:
  "length bs = 128 \<Longrightarrow> blocks hs bs = compress (compress hs (take 64 bs)) (drop 64 bs)"
  by (simp add: blocks.simps [of hs bs] blocks.simps [of _ "drop 64 bs"] blocks.simps [of _ "[]"])

text \<open>The round constants and the initial hash value, computed from the primes.\<close>

lemma K256_eval:
  "K256 = map w32_of
      [1116352408, 1899447441, 3049323471, 3921009573, 961987163, 1508970993, 2453635748,
       2870763221, 3624381080, 310598401, 607225278, 1426881987, 1925078388, 2162078206,
       2614888103, 3248222580, 3835390401, 4022224774, 264347078, 604807628, 770255983,
       1249150122, 1555081692, 1996064986, 2554220882, 2821834349, 2952996808, 3210313671,
       3336571891, 3584528711, 113926993, 338241895, 666307205, 773529912, 1294757372,
       1396182291, 1695183700, 1986661051, 2177026350, 2456956037, 2730485921, 2820302411,
       3259730800, 3345764771, 3516065817, 3600352804, 4094571909, 275423344, 430227734,
       506948616, 659060556, 883997877, 958139571, 1322822218, 1537002063, 1747873779,
       1955562222, 2024104815, 2227730452, 2361852424, 2428436474, 2756734187, 3204031479,
       3329325298]"
  by (simp add: K256_def primes64_def frac_root_W iroot_numeral)

lemma H256_eval:
  "H256 = map w32_of
      [1779033703, 3144134277, 1013904242, 2773480762, 1359893119, 2600822924, 528734635,
       1541459225]"
  by (simp add: H256_def primes64_def frac_root_W iroot_numeral)

text \<open>
  The two test vectors of the standard that are strings (one block and two blocks),
  and the password of the example.
\<close>

lemma hashPassword_abc:
  "hashPassword ''abc'' = ''ba7816bf8f01cfea414140de5dae2223b00361a396177a9cb410ff61f20015ad''"
proof -
  have len: "length (pad (utf8 ''abc'')) = 64"
    by (simp add: pad_def utf8_def utf8_unit_def w64_bytes_def w32_bytes_def)
  have "be_words (pad (utf8 ''abc'')) = map w32_of
      [1633837952, 0, 0, 0, 0, 0, 0, 0, 0, 0, 0, 0, 0, 0, 0, 24]"
    by (simp add: w32_of_def pad_def utf8_def utf8_unit_def w64_bytes_def w32_bytes_def
          replicate_numeral)
  then have "compress H256 (pad (utf8 ''abc'')) = map w32_of
      [3128432319, 2399260650, 1094795486, 1571693091, 2953011619, 2518121116, 3021012833,
       4060091821]"
    by (simp add: compress_def K256_eval H256_eval sha_eval del: rounds.simps(1))
  then show ?thesis
    by (simp add: hashPassword_def sha256_def blocks_single [OF len] w32_bytes_W hex_B hex_Nil
          hexNibble_def)
qed

lemma hashPassword_two_blocks:
  "hashPassword ''abcdbcdecdefdefgefghfghighijhijkijkljklmklmnlmnomnopnopq''
     = ''248d6a61d20638b8e5c026930c3e6039a33ce45964ff2167f6ecedd419db06c1''"
proof -
  let ?bs = "pad (utf8 ''abcdbcdecdefdefgefghfghighijhijkijkljklmklmnlmnomnopnopq'')"
  have len: "length ?bs = 128"
    by (simp add: pad_def utf8_def utf8_unit_def w64_bytes_def w32_bytes_def)
  have "be_words (take 64 ?bs) = map w32_of
      [1633837924, 1650680933, 1667523942, 1684366951, 1701209960, 1718052969, 1734895978,
       1751738987, 1768581996, 1785425005, 1802268014, 1819111023, 1835954032, 1852797041,
       2147483648, 0]"
    by (simp add: w32_of_def pad_def utf8_def utf8_unit_def w64_bytes_def w32_bytes_def
          replicate_numeral)
  then have first: "compress H256 (take 64 ?bs) = map w32_of
      [2246464982, 1098520469, 862140266, 1649204828, 1994429833, 3401971729, 3427480257,
       4061025082]"
    by (simp add: compress_def K256_eval H256_eval sha_eval del: rounds.simps(1))
  have "be_words (drop 64 ?bs) = map w32_of
      [0, 0, 0, 0, 0, 0, 0, 0, 0, 0, 0, 0, 0, 0, 0, 448]"
    by (simp add: w32_of_def pad_def utf8_def utf8_unit_def w64_bytes_def w32_bytes_def
          replicate_numeral)
  then have "compress (map w32_of
      [2246464982, 1098520469, 862140266, 1649204828, 1994429833, 3401971729, 3427480257,
       4061025082]) (drop 64 ?bs) = map w32_of
      [613247585, 3523623096, 3854575251, 205414457, 2738676825, 1694441831, 4142722516,
       433784513]"
    by (simp add: compress_def K256_eval sha_eval del: rounds.simps(1))
  with first show ?thesis
    by (simp add: hashPassword_def sha256_def blocks_two [OF len] w32_bytes_W hex_B hex_Nil
          hexNibble_def)
qed

lemma hashPassword_password123:
  "hashPassword ''password123'' = ''ef92b778bafe771e89245b89ecbc08a44a4e166c06659911881f383d4473e94f''"
proof -
  have len: "length (pad (utf8 ''password123'')) = 64"
    by (simp add: pad_def utf8_def utf8_unit_def w64_bytes_def w32_bytes_def)
  have "be_words (pad (utf8 ''password123'')) = map w32_of
      [1885434739, 2003792484, 825373568, 0, 0, 0, 0, 0, 0, 0, 0, 0, 0, 0, 0, 88]"
    by (simp add: w32_of_def pad_def utf8_def utf8_unit_def w64_bytes_def w32_bytes_def
          replicate_numeral)
  then have "compress H256 (pad (utf8 ''password123'')) = map w32_of
      [4019369848, 3137238814, 2300861321, 3971745956, 1246631532, 107321617, 2283747389,
       1148447055]"
    by (simp add: compress_def K256_eval H256_eval sha_eval del: rounds.simps(1))
  then show ?thesis
    by (simp add: hashPassword_def sha256_def blocks_single [OF len] w32_bytes_W hex_B hex_Nil
          hexNibble_def)
qed

subsection \<open>What is stored and what is returned\<close>

lemma createUser_password_independent:
  assumes "validateUserInput \<lparr>name = JString n, email = JString e, password = JString p\<rparr> = None"
    and "validateUserInput \<lparr>name = JString n, email = JString e, password = JString p'\<rparr> = None"
  shows "fst (createUser db \<lparr>name = JString n, email = JString e, password = JString p'\<rparr>)
           = fst (createUser db \<lparr>name = JString n, email = JString e, password = JString p\<rparr>)"
  by (simp add: createUser_valid [OF assms(1)] createUser_valid [OF assms(2)] Let_def
           split: option.splits)

lemma post_users_password_independent:
  assumes "validateUserInput \<lparr>name = JString n, email = JString e, password = JString p\<rparr> = None"
    and "validateUserInput \<lparr>name = JString n, email = JString e, password = JString p'\<rparr> = None"
  shows "fst (post_users db (JObject [(''name'', JString n), (''email'', JString e),
                                      (''password'', JString p')]))
           = fst (post_users db (JObject [(''name'', JString n), (''email'', JString e),
                                          (''password'', JString p)]))"
  using createUser_password_independent [OF assms, of db]
  by (auto simp: post_users_def simp del: handleUserRouteError.simps split: prod.splits sum.splits)

text \<open>
  C8. For an input that passes validation, the password column of the row that
  \<open>createUser\<close> inserts is \<open>hashPassword\<close> of the password: the SHA-256 digest of
  its UTF-8 bytes, written as 64 lower-case hexadecimal digits; on the strings of the
  standard's test vectors \<open>hashPassword\<close> gives the standard's digests. The rest of
  the row is the trimmed name, the normalised email and what the store assigns, and
  a call that throws leaves the table as it was, so the password itself is stored
  nowhere. The object returned has no \<^verbatim>\<open>password\<close> property, and what
  \<open>createUser\<close> returns or throws, and the response of \<^verbatim>\<open>POST /users\<close>, are the
  same for any two accepted passwords: no output depends on the password.
\<close>

theorem password_stored_as_digest_only:
  assumes "validateUserInput \<lparr>name = JString n, email = JString e, password = JString p\<rparr> = None"
  shows "(\<forall>user db'. createUser db \<lparr>name = JString n, email = JString e, password = JString p\<rparr>
                          = (Inr user, db') \<longrightarrow>
            users db' = users db @
              [\<lparr>row_id = uuid_of_counter (uuid_counter db), row_name = trim n,
                row_email = toLowerCase (trim e), row_password = hashPassword p,
                row_created_at = clock db + 1, row_updated_at = clock db + 1\<rparr>]
            \<and> map_of user ''password'' = None)
       \<and> (\<forall>err db'. createUser db \<lparr>name = JString n, email = JString e, password = JString p\<rparr>
                          = (Inl err, db') \<longrightarrow> users db' = users db)
       \<and> hashPassword p = hex (sha256 (utf8 p))
       \<and> length (hashPassword p) = 64
       \<and> (\<forall>c\<in>set (hashPassword p). c \<in> set ''0123456789abcdef'')
       \<and> (\<forall>p'. validateUserInput \<lparr>name = JString n, email = JString e, password = JString p'\<rparr> = None
              \<longrightarrow>
              fst (createUser db \<lparr>name = JString n, email = JString e, password = JString p'\<rparr>)
                = fst (createUser db \<lparr>name = JString n, email = JString e, password = JString p\<rparr>)
            \<and> fst (post_users db (JObject [(''name'', JString n), (''email'', JString e),
                                              (''password'', JString p')]))
                = fst (post_users db (JObject [(''name'', JString n), (''email'', JString e),
                                               (''password'', JString p)])))
       \<and> hashPassword ''abc''
           = ''ba7816bf8f01cfea414140de5dae2223b00361a396177a9cb410ff61f20015ad''
       \<and> hashPassword ''abcdbcdecdefdefgefghfghighijhijkijkljklmklmnlmnomnopnopq''
           = ''248d6a61d20638b8e5c026930c3e6039a33ce45964ff2167f6ecedd419db06c1''"
proof -
  let ?input = "\<lparr>name = JString n, email = JString e, password = JString p\<rparr>"
  have stored: "\<forall>user db'. createUser db ?input = (Inr user, db') \<longrightarrow>
            users db' = users db @
              [\<lparr>row_id = uuid_of_counter (uuid_counter db), row_name = trim n,
                row_email = toLowerCase (trim e), row_password = hashPassword p,
                row_created_at = clock db + 1, row_updated_at = clock db + 1\<rparr>]
            \<and> map_of user ''password'' = None"
  proof (intro allI impI)
    fix user db'
    assume "createUser db ?input = (Inr user, db')"
    then show "users db' = users db @
              [\<lparr>row_id = uuid_of_counter (uuid_counter db), row_name = trim n,
                row_email = toLowerCase (trim e), row_password = hashPassword p,
                row_created_at = clock db + 1, row_updated_at = clock db + 1\<rparr>]
            \<and> map_of user ''password'' = None"
      unfolding createUser_valid [OF assms] Let_def
      by (cases "outage db"; cases "trim (toLowerCase e) \<in> set (map row_email (users db))")
         (auto simp: trim_toLowerCase)
  qed
  have failed: "\<forall>err db'. createUser db ?input = (Inl err, db') \<longrightarrow> users db' = users db"
  proof (intro allI impI)
    fix err db'
    assume "createUser db ?input = (Inl err, db')"
    then show "users db' = users db"
      unfolding createUser_valid [OF assms] Let_def
      by (cases "outage db"; cases "trim (toLowerCase e) \<in> set (map row_email (users db))")
         auto
  qed
  have eq: "hashPassword p = hex (sha256 (utf8 p))"
    by (simp only: hashPassword_def)
  have len: "length (hashPassword p) = 64"
    by (rule length_hashPassword)
  have digits: "\<forall>c\<in>set (hashPassword p). c \<in> set ''0123456789abcdef''"
    unfolding hashPassword_def by (intro ballI) (rule hex_lower)
  have indep: "\<forall>p'. validateUserInput \<lparr>name = JString n, email = JString e, password = JString p'\<rparr> = None
              \<longrightarrow>
              fst (createUser db \<lparr>name = JString n, email = JString e, password = JString p'\<rparr>)
                = fst (createUser db ?input)
            \<and> fst (post_users db (JObject [(''name'', JString n), (''email'', JString e),
                                              (''password'', JString p')]))
                = fst (post_users db (JObject [(''name'', JString n), (''email'', JString e),
                                               (''password'', JString p)]))"
    using createUser_password_independent [OF assms] post_users_password_independent [OF assms]
    by blast
  from stored failed eq len digits indep hashPassword_abc hashPassword_two_blocks show ?thesis
    by (intro conjI) assumption+
qed

theorem password_stored_as_digest_only_witness:
  "validateUserInput \<lparr>name = JString ''John Doe'', email = JString ''JOHN@Example.com'',
                       password = JString ''password123''\<rparr> = None
   \<and> users (snd (createUser empty_store john))
       = [\<lparr>row_id = ''00000000-0000-0000-0000-000000000000'', row_name = ''John Doe'',
           row_email = ''john@example.com'',
           row_password = ''ef92b778bafe771e89245b89ecbc08a44a4e166c06659911881f383d4473e94f'',
           row_created_at = 1, row_updated_at = 1\<rparr>]
   \<and> map_of (projr (fst (createUser empty_store john))) ''password'' = None
   \<and> length (hashPassword ''password123'') = 64
   \<and> validateUserInput \<lparr>name = JString ''John Doe'', email = JString ''JOHN@Example.com'',
                       password = JString ''differentpass123''\<rparr> = None
   \<and> fst (createUser empty_store (john\<lparr>password := JString ''differentpass123''\<rparr>))
       = fst (createUser empty_store john)"
proof -
  have valid: "validateUserInput \<lparr>name = JString ''John Doe'', email = JString ''JOHN@Example.com'',
                       password = JString ''password123''\<rparr> = None"
    using john_valid by (simp add: john_def)
  have valid': "validateUserInput \<lparr>name = JString ''John Doe'', email = JString ''JOHN@Example.com'',
                       password = JString ''differentpass123''\<rparr> = None"
    by code_simp
  have first: "createUser empty_store \<lparr>name = JString ''John Doe'', email = JString ''JOHN@Example.com'',
                   password = JString ''password123''\<rparr>
     = (Inr [(''id'', Text ''00000000-0000-0000-0000-000000000000''), (''name'', Text ''John Doe''),
            (''email'', Text ''john@example.com''), (''created_at'', Timestamp 1),
            (''updated_at'', Timestamp 1)],
        snd (createUser empty_store john))"
    using createUser_empty_store_john
    by (simp add: john_def prod_eq_iff)
  note inst = password_stored_as_digest_only [OF valid, of empty_store]
  note row = inst [THEN conjunct1, rule_format, OF first]
  from row [THEN conjunct1]
  have stored: "users (snd (createUser empty_store john))
       = [\<lparr>row_id = ''00000000-0000-0000-0000-000000000000'', row_name = ''John Doe'',
           row_email = ''john@example.com'',
           row_password = ''ef92b778bafe771e89245b89ecbc08a44a4e166c06659911881f383d4473e94f'',
           row_created_at = 1, row_updated_at = 1\<rparr>]"
    by (simp add: empty_store_def trim_John_Doe trim_JOHN uuid_of_counter_0
          hashPassword_password123)
  from row [THEN conjunct2]
  have hidden: "map_of (projr (fst (createUser empty_store john))) ''password'' = None"
    by (simp only: createUser_empty_store_john sum.sel)
  from inst [THEN conjunct2, THEN conjunct2, THEN conjunct2, THEN conjunct1]
  have len: "length (hashPassword ''password123'') = 64" .
  note same = inst [THEN conjunct2, THEN conjunct2, THEN conjunct2, THEN conjunct2,
    THEN conjunct2, THEN conjunct1, rule_format, OF valid', THEN conjunct1]
  from same
  have indep: "fst (createUser empty_store (john\<lparr>password := JString ''differentpass123''\<rparr>))
       = fst (createUser empty_store john)"
    by (simp add: john_def)
  from valid stored hidden len valid' indep show ?thesis
    by (intro conjI) assumption+
qed

section \<open>The identifier pattern\<close>

lemma char_eq_nat: "(c = d) = ((of_char c :: nat) = of_char d)"
  by simp

lemma isHexDigit_hexClass: "isHexDigit c = hexClass c"
  unfolding isHexDigit_def hexClass_def Let_def
  by (simp add: char_eq_nat) arith

lemma hexClass_not_hyphen: "hexClass c \<Longrightarrow> c \<noteq> CHR ''-''"
  by (auto simp: hexClass_def)

lemma conc_iff: "s \<in> conc A B \<longleftrightarrow> (\<exists>u v. s = u @ v \<and> u \<in> A \<and> v \<in> B)"
  by (auto simp: conc_def)

lemma conc_Cls_Cons: "a # t \<in> conc {[c] | c. p c} B \<longleftrightarrow> p a \<and> t \<in> B"
  by (auto simp: conc_Cons)

lemma conc_Cls_Nil: "[] \<notin> conc {[c] | c. p c} B"
  by (auto simp: conc_def)

lemma lang_Rep_Cls: "s \<in> lang (Rep n (Cls p)) \<longleftrightarrow> length s = n \<and> (\<forall>c\<in>set s. p c)"
proof (induction n arbitrary: s)
  case 0
  show ?case by auto
next
  case (Suc n)
  show ?case
  proof (cases s)
    case Nil
    then show ?thesis by (simp add: conc_Cls_Nil)
  next
    case (Cons a t)
    with Suc [of t] show ?thesis
      by (auto simp: conc_Cls_Cons)
  qed
qed

lemma lang_Lit_Seq: "s \<in> lang (Seq (Lit a) r) \<longleftrightarrow> (\<exists>t. s = a # t \<and> t \<in> lang r)"
  by (auto simp: Lit_def conc_iff)

lemma lang_Rep_Seq:
  "s \<in> lang (Seq (Rep n (Cls p)) r) \<longleftrightarrow>
     (\<exists>g t. s = g @ t \<and> length g = n \<and> (\<forall>c\<in>set g. p c) \<and> t \<in> lang r)"
  by (auto simp: conc_iff lang_Rep_Cls)

lemma lang_group_then:
  "s \<in> lang (Seq (Rep n (Cls p)) (Seq (Lit a) r)) \<longleftrightarrow>
     (\<exists>g t. s = g @ a # t \<and> length g = n \<and> (\<forall>c\<in>set g. p c) \<and> t \<in> lang r)"
  unfolding lang_Rep_Seq lang_Lit_Seq by blast

lemma lang_uuidRegex_intro:
  assumes "length g1 = 8" "length g2 = 4" "length g3 = 4" "length g4 = 4" "length g5 = 12"
    and "\<forall>c\<in>set g1. hexClass c" "\<forall>c\<in>set g2. hexClass c" "\<forall>c\<in>set g3. hexClass c"
      "\<forall>c\<in>set g4. hexClass c" "\<forall>c\<in>set g5. hexClass c"
  shows "g1 @ CHR ''-'' # g2 @ CHR ''-'' # g3 @ CHR ''-'' # g4 @ CHR ''-'' # g5 \<in> lang uuidRegex"
proof -
  let ?H = "Rep 4 (Cls hexClass)"
  let ?D = "Lit CHR ''-''"
  let ?r5 = "Rep 12 (Cls hexClass)"
  let ?r4 = "Seq ?H (Seq ?D ?r5)"
  let ?r3 = "Seq ?H (Seq ?D ?r4)"
  let ?r2 = "Seq ?H (Seq ?D ?r3)"
  from assms have "g5 \<in> lang ?r5"
    by (simp add: lang_Rep_Cls)
  with assms have "g4 @ CHR ''-'' # g5 \<in> lang ?r4"
    unfolding lang_group_then [of _ 4 hexClass "CHR ''-''" ?r5] by blast
  with assms have "g3 @ CHR ''-'' # g4 @ CHR ''-'' # g5 \<in> lang ?r3"
    unfolding lang_group_then [of _ 4 hexClass "CHR ''-''" ?r4] by blast
  with assms have "g2 @ CHR ''-'' # g3 @ CHR ''-'' # g4 @ CHR ''-'' # g5 \<in> lang ?r2"
    unfolding lang_group_then [of _ 4 hexClass "CHR ''-''" ?r3] by blast
  with assms have "g1 @ CHR ''-'' # g2 @ CHR ''-'' # g3 @ CHR ''-'' # g4 @ CHR ''-'' # g5
      \<in> lang (Seq (Rep 8 (Cls hexClass)) (Seq ?D ?r2))"
    unfolding lang_group_then [of _ 8 hexClass "CHR ''-''" ?r2] by blast
  then show ?thesis
    by (simp only: uuidRegex_def)
qed

lemma lang_uuidRegex_elim:
  assumes "s \<in> lang uuidRegex"
  obtains g1 g2 g3 g4 g5 where
    "s = g1 @ CHR ''-'' # g2 @ CHR ''-'' # g3 @ CHR ''-'' # g4 @ CHR ''-'' # g5"
    "length g1 = 8" "length g2 = 4" "length g3 = 4" "length g4 = 4" "length g5 = 12"
    "\<forall>c\<in>set g1. hexClass c" "\<forall>c\<in>set g2. hexClass c" "\<forall>c\<in>set g3. hexClass c"
    "\<forall>c\<in>set g4. hexClass c" "\<forall>c\<in>set g5. hexClass c"
proof -
  let ?H = "Rep 4 (Cls hexClass)"
  let ?D = "Lit CHR ''-''"
  let ?r5 = "Rep 12 (Cls hexClass)"
  let ?r4 = "Seq ?H (Seq ?D ?r5)"
  let ?r3 = "Seq ?H (Seq ?D ?r4)"
  let ?r2 = "Seq ?H (Seq ?D ?r3)"
  from assms have "s \<in> lang (Seq (Rep 8 (Cls hexClass)) (Seq ?D ?r2))"
    by (simp only: uuidRegex_def)
  then obtain g1 t1 where p1: "s = g1 @ CHR ''-'' # t1" "length g1 = 8" "\<forall>c\<in>set g1. hexClass c"
    and t1: "t1 \<in> lang ?r2"
    unfolding lang_group_then [of _ 8 hexClass "CHR ''-''" ?r2] by blast
  from t1 obtain g2 t2 where p2: "t1 = g2 @ CHR ''-'' # t2" "length g2 = 4" "\<forall>c\<in>set g2. hexClass c"
    and t2: "t2 \<in> lang ?r3"
    unfolding lang_group_then [of _ 4 hexClass "CHR ''-''" ?r3] by blast
  from t2 obtain g3 t3 where p3: "t2 = g3 @ CHR ''-'' # t3" "length g3 = 4" "\<forall>c\<in>set g3. hexClass c"
    and t3: "t3 \<in> lang ?r4"
    unfolding lang_group_then [of _ 4 hexClass "CHR ''-''" ?r4] by blast
  from t3 obtain g4 g5 where p4: "t3 = g4 @ CHR ''-'' # g5" "length g4 = 4" "\<forall>c\<in>set g4. hexClass c"
    and t4: "g5 \<in> lang ?r5"
    unfolding lang_group_then [of _ 4 hexClass "CHR ''-''" ?r5] by blast
  from t4 have p5: "length g5 = 12" "\<forall>c\<in>set g5. hexClass c"
    by (simp_all add: lang_Rep_Cls)
  from p1 p2 p3 p4 p5 that [of g1 g2 g3 g4 g5] show thesis
    by simp
qed

lemma groups_not_Nil: "groups s \<noteq> []"
  by (induction s) (auto split: list.splits)

lemma groups_plain: "CHR ''-'' \<notin> set g \<Longrightarrow> groups g = [g]"
  by (induction g) auto

lemma groups_append: "CHR ''-'' \<notin> set g \<Longrightarrow> groups (g @ CHR ''-'' # t) = g # groups t"
  by (induction g) auto

lemma groups_single: "groups s = [g] \<Longrightarrow> s = g"
proof (induction s arbitrary: g)
  case Nil
  then show ?case by simp
next
  case (Cons c s)
  then show ?case
    using groups_not_Nil [of s] by (auto split: if_splits list.splits)
qed

lemma groups_several: "groups s = g # h # gs \<Longrightarrow> \<exists>t. s = g @ CHR ''-'' # t \<and> groups t = h # gs"
proof (induction s arbitrary: g)
  case Nil
  then show ?case by simp
next
  case (Cons c s)
  show ?case
  proof (cases "c = CHR ''-''")
    case True
    with Cons.prems show ?thesis by auto
  next
    case False
    with Cons.prems obtain g' where g': "groups s = g' # h # gs" "g = c # g'"
      by (auto split: list.splits)
    from Cons.IH [OF g'(1)] g'(2) show ?thesis
      by auto
  qed
qed

lemma hyphen_free: "\<forall>c\<in>set g. hexClass c \<Longrightarrow> CHR ''-'' \<notin> set g"
  using hexClass_not_hyphen by blast

lemma isValidUUID_shape: "isValidUUID s = canonicalUUIDShape s"
proof
  assume "isValidUUID s"
  then have "s \<in> lang uuidRegex"
    by (simp add: isValidUUID_def test_lang)
  then obtain g1 g2 g3 g4 g5 where
    s: "s = g1 @ CHR ''-'' # g2 @ CHR ''-'' # g3 @ CHR ''-'' # g4 @ CHR ''-'' # g5"
    and len: "length g1 = 8" "length g2 = 4" "length g3 = 4" "length g4 = 4" "length g5 = 12"
    and hex: "\<forall>c\<in>set g1. hexClass c" "\<forall>c\<in>set g2. hexClass c" "\<forall>c\<in>set g3. hexClass c"
      "\<forall>c\<in>set g4. hexClass c" "\<forall>c\<in>set g5. hexClass c"
    by (rule lang_uuidRegex_elim)
  from hex [THEN hyphen_free] have "groups s = [g1, g2, g3, g4, g5]"
    by (simp add: s groups_append groups_plain)
  with len hex show "canonicalUUIDShape s"
    by (auto simp: canonicalUUIDShape_def list_all_iff isHexDigit_hexClass)
next
  assume "canonicalUUIDShape s"
  then have len: "map length (groups s) = [8, 4, 4, 4, 12]"
    and hex: "\<forall>c\<in>set (concat (groups s)). hexClass c"
    by (simp_all add: canonicalUUIDShape_def list_all_iff isHexDigit_hexClass)
  from len obtain g1 g2 g3 g4 g5 where g: "groups s = [g1, g2, g3, g4, g5]"
    and lens: "length g1 = 8" "length g2 = 4" "length g3 = 4" "length g4 = 4" "length g5 = 12"
    by (auto simp: map_eq_Cons_conv)
  from groups_several [OF g] obtain t1 where t1: "s = g1 @ CHR ''-'' # t1" "groups t1 = [g2, g3, g4, g5]"
    by blast
  from groups_several [OF t1(2)] obtain t2 where t2: "t1 = g2 @ CHR ''-'' # t2" "groups t2 = [g3, g4, g5]"
    by blast
  from groups_several [OF t2(2)] obtain t3 where t3: "t2 = g3 @ CHR ''-'' # t3" "groups t3 = [g4, g5]"
    by blast
  from groups_several [OF t3(2)] obtain t4 where t4: "t3 = g4 @ CHR ''-'' # t4" "groups t4 = [g5]"
    by blast
  from groups_single [OF t4(2)] t1 t2 t3 t4
  have s: "s = g1 @ CHR ''-'' # g2 @ CHR ''-'' # g3 @ CHR ''-'' # g4 @ CHR ''-'' # g5"
    by simp
  from hex g have "\<forall>c\<in>set g1. hexClass c" "\<forall>c\<in>set g2. hexClass c" "\<forall>c\<in>set g3. hexClass c"
      "\<forall>c\<in>set g4. hexClass c" "\<forall>c\<in>set g5. hexClass c"
    by simp_all
  with lens have "g1 @ CHR ''-'' # g2 @ CHR ''-'' # g3 @ CHR ''-'' # g4 @ CHR ''-'' # g5 \<in> lang uuidRegex"
    by (intro lang_uuidRegex_intro)
  with s show "isValidUUID s"
    by (simp add: isValidUUID_def test_lang)
qed

lemma validationFailure_getUserById: "validationFailure (fst (getUserById db v)) = validateIdentifier v"
  by (auto simp: getUserById_def validateIdentifier_def validationFailure_def isValidUUID_shape
        query_unfold Let_def split: option.splits prod.splits sum.splits list.splits)

lemma validationFailure_deleteUserById: "validationFailure (fst (deleteUserById db v)) = validateIdentifier v"
  by (auto simp: deleteUserById_def validateIdentifier_def validationFailure_def isValidUUID_shape
        query_unfold Let_def split: option.splits prod.splits sum.splits list.splits)

text \<open>
  C9. The validation step of \<open>getUserById\<close> and of \<open>deleteUserById\<close> is the same
  function of the identifier, whatever the stores: each throws a \<open>ValidationError\<close>
  exactly when \<open>validateIdentifier\<close> gives one, and that one. \<open>validateIdentifier\<close> is
  the presence check followed by the shape of five groups of 8, 4, 4, 4 and 12
  hexadecimal digits of either case between hyphens, which is what the pattern of
  \<open>isValidUUID\<close> accepts.
\<close>

theorem identifier_validation_same_for_fetch_and_delete:
  "validationFailure (fst (getUserById db1 v)) = validationFailure (fst (deleteUserById db2 v))
   \<and> validationFailure (fst (getUserById db1 v)) = validateIdentifier v
   \<and> validationFailure (fst (deleteUserById db2 v)) = validateIdentifier v
   \<and> isValidUUID s = canonicalUUIDShape s"
  by (simp add: validationFailure_getUserById validationFailure_deleteUserById isValidUUID_shape)

theorem identifier_validation_same_for_fetch_and_delete_witness:
  "validationFailure (fst (getUserById empty_store (JString ''not-a-valid-uuid'')))
     = Some (ValidationError ''User ID must be a valid UUID'' (Some ''id''))
   \<and> validationFailure (fst (deleteUserById johns_store (JString ''not-a-valid-uuid'')))
     = Some (ValidationError ''User ID must be a valid UUID'' (Some ''id''))
   \<and> canonicalUUIDShape ''123e4567-e89b-12d3-a456-426614174000''
   \<and> isValidUUID ''123e4567-e89b-12d3-a456-426614174000''"
proof -
  have shape: "canonicalUUIDShape ''123e4567-e89b-12d3-a456-426614174000''"
    by code_simp
  have bad: "\<not> canonicalUUIDShape ''not-a-valid-uuid''"
    by code_simp
  from identifier_validation_same_for_fetch_and_delete
    [of empty_store "JString ''not-a-valid-uuid''" johns_store "''123e4567-e89b-12d3-a456-426614174000''"]
    shape bad
  show ?thesis
    by (simp add: validateIdentifier_def)
qed

end
